theory Spec2Isabelle
  imports Main "HOL-Library.AList" "HOL-Library.Sublist" "HOL-Library.Multiset"
begin

section \<open>Errors and dictionaries\<close>

text \<open>
  The exceptions a run of \<^verbatim>\<open>gen_keys.py\<close> can end in, as values.
  \<open>TypeError\<close> and \<open>KeyError\<close> are what Python raises for a subscript on
  \<^verbatim>\<open>None\<close> and for a missing dictionary key, \<open>OSError\<close> is what a refused
  file operation raises, \<open>ExtractionFailure\<close> is a failure of the external public-key
  tool, \<open>CryptoError\<close> and \<open>AttributeError\<close> are what the X509 library raises for
  a subject value it refuses and for a subject field it does not know.
  \<open>UnknownField\<close> is the error the specification names for an unrecognised subject
  field; no statement of the source raises it.
\<close>

datatype error =
  UnknownField | TypeError | KeyError | OSError | ExtractionFailure | CryptoError | AttributeError

text \<open>
  A Python \<^verbatim>\<open>dict\<close> is an association list in insertion order, read with
  \<^const>\<open>map_of\<close>; the assignment \<^verbatim>\<open>d[k] = v\<close> is \<^const>\<open>AList.update\<close>
  (replace in place, else append).
\<close>

type_synonym ('k, 'v) dict = "('k \<times> 'v) list"

section \<open>The subject resolver\<close>

definition defaults :: "(string, (int, string) dict) dict" where
  "defaults =
     [(''C'', [(1, ''US'')]),
      (''ST'', [(1, ''California'')]),
      (''L'', [(1, ''Mountain View'')]),
      (''O'', [(1, ''Android'')]),
      (''OU'', [(1, ''Android'')]),
      (''CN'', [(1, ''Android'')]),
      (''emailAddress'', [(1, ''android@android.com'')])]"

text \<open>
  \<^verbatim>\<open>subject_params(param, custom_param=None)\<close>. The guard
  \<^verbatim>\<open>custom_param and param in custom_param\<close> is false for \<^verbatim>\<open>None\<close> and
  for the empty dictionary. The function ends in \<^verbatim>\<open>defaults.get(param)\<close>, which
  returns \<^verbatim>\<open>None\<close> (here \<open>Inr None\<close>) for a key that is not in the table: every
  path returns, none raises.
\<close>

definition subject_params ::
  "string \<Rightarrow> (string, string) dict option \<Rightarrow> error + (int, string) dict option" where
  "subject_params param custom_param =
     (let table =
        (case custom_param of
           None \<Rightarrow> defaults
         | Some cp \<Rightarrow>
             (if cp = [] then defaults
              else (case map_of cp param of
                      None \<Rightarrow> defaults
                    | Some v \<Rightarrow> AList.update param [(1, v)] defaults)))
      in Inr (map_of table param))"

text \<open>The subscript \<^verbatim>\<open>d[k]\<close> the callers apply to the resolver's result.\<close>

definition subscript :: "(int, string) dict option \<Rightarrow> int \<Rightarrow> error + string" where
  "subscript d k =
     (case d of
        None \<Rightarrow> Inl TypeError
      | Some al \<Rightarrow> (case map_of al k of None \<Rightarrow> Inl KeyError | Some v \<Rightarrow> Inr v))"

text \<open>The expression \<^verbatim>\<open>subject_params(param, custom_param)[1]\<close>.\<close>

definition subject_value :: "string \<Rightarrow> (string, string) dict option \<Rightarrow> error + string" where
  "subject_value param custom_param =
     (case subject_params param custom_param of
        Inl e \<Rightarrow> Inl e
      | Inr d \<Rightarrow> subscript d 1)"

section \<open>Paths\<close>

text \<open>
  A \<^verbatim>\<open>pathlib.Path\<close> on a POSIX host is its parsed form: the anchor (empty for a
  relative path, \<open>/\<close> or \<open>//\<close> for an absolute one) and the list of its components.
  Two path objects are equal when their parsed forms are. The file system below is keyed
  by parsed paths; symbolic links and \<open>..\<close> are not resolved. A relative path is
  taken from the one working directory of the run, and a relative and an absolute path
  are taken to name different files: the working directory is assumed not to be
  \<^verbatim>\<open>CERTS_PATH\<close>, the one directory the run writes to by an absolute path. The
  file a path names from a given working directory is \<open>resolve\<close> below.
\<close>

record path =
  anchor :: string
  parts :: "string list"

text \<open>\<^verbatim>\<open>s.split('/')\<close>.\<close>

fun split_sep :: "string \<Rightarrow> string list" where
  "split_sep [] = [[]]"
| "split_sep (c # cs) =
     (if c = CHR ''/'' then [] # split_sep cs
      else (case split_sep cs of [] \<Rightarrow> [[c]] | p # ps \<Rightarrow> (c # p) # ps))"

text \<open>
  \<^verbatim>\<open>posixpath.splitroot\<close>: exactly two leading slashes are kept as the root, one or
  three and more are the root \<open>/\<close>.
\<close>

definition splitroot :: "string \<Rightarrow> string \<times> string" where
  "splitroot p =
     (if take 1 p \<noteq> ''/'' then ([], p)
      else if take 1 (drop 1 p) \<noteq> ''/'' \<or> take 1 (drop 2 p) = ''/'' then (''/'', drop 1 p)
      else (take 2 p, drop 2 p))"

text \<open>
  \<^verbatim>\<open>Path(s)\<close>: the root is split off, the rest is split at \<open>/\<close>, and empty
  components and \<open>.\<close> components are dropped.
\<close>

definition Path :: "string \<Rightarrow> path" where
  "Path s =
     (case splitroot s of
        (r, rel) \<Rightarrow>
          \<lparr>anchor = r, parts = filter (\<lambda>x. x \<noteq> [] \<and> x \<noteq> ''.'') (split_sep rel)\<rparr>)"

text \<open>\<^verbatim>\<open>sep.join(xs)\<close>.\<close>

fun join :: "string \<Rightarrow> string list \<Rightarrow> string" where
  "join sep [] = []"
| "join sep [x] = x"
| "join sep (x # y # ys) = x @ sep @ join sep (y # ys)"

text \<open>\<^verbatim>\<open>str(p)\<close>: anchor and components joined by \<open>/\<close>; the empty path prints as \<open>.\<close>.\<close>

definition str_path :: "path \<Rightarrow> string" where
  "str_path p = (let s = anchor p @ join ''/'' (parts p) in if s = [] then ''.'' else s)"

text \<open>
  \<^verbatim>\<open>p / s\<close>: an absolute right operand replaces the left one, a relative one
  appends its components.
\<close>

definition joinpath :: "path \<Rightarrow> string \<Rightarrow> path" where
  "joinpath p s =
     (let q = Path s
      in if anchor q \<noteq> [] then q else \<lparr>anchor = anchor p, parts = parts p @ parts q\<rparr>)"

text \<open>
  \<^verbatim>\<open>CERTS_PATH = Path('~/.android-certs').expanduser()\<close>. The parameter \<open>home\<close>
  is the directory the environment resolves \<open>~\<close> to; \<^verbatim>\<open>expanduser\<close> puts the
  components after \<open>~\<close> behind the parsed home directory.
\<close>

definition CERTS_PATH :: "string \<Rightarrow> path" where
  "CERTS_PATH home =
     (let h = Path home in \<lparr>anchor = anchor h, parts = parts h @ [''.android-certs'']\<rparr>)"

definition RSA_PLATFORM_KEY_SIZE :: nat where
  "RSA_PLATFORM_KEY_SIZE = 4096"

definition RSA_APEX_KEY_SIZE :: nat where
  "RSA_APEX_KEY_SIZE = 4096"

section \<open>Keys, certificates and the file system\<close>

text \<open>
  The cryptographic library is a collaborator: its objects are modelled by what the
  source puts into them. An RSA key is its modulus size and its random material; the
  generator draws the material from the world's \<open>entropy\<close> counter, so that two keys
  generated in one run never agree.
\<close>

record key =
  bits :: nat
  material :: nat

text \<open>
  An \<^verbatim>\<open>X509\<close> object: the subject and issuer names as ordered lists of
  (field, value) entries, the serial number, the validity bounds in seconds, the public
  key and the signature (signing key and digest name).
\<close>

record x509 =
  subject :: "(string \<times> string) list"
  issuer :: "(string \<times> string) list"
  serial_number :: int
  notBefore :: int
  notAfter :: int
  pubkey :: "key option"
  signature :: "(key \<times> string) option"

definition X509 :: x509 where
  "X509 = \<lparr>subject = [], issuer = [], serial_number = 0, notBefore = 0, notAfter = 0,
            pubkey = None, signature = None\<rparr>"

text \<open>What a file holds, by the encoder that produced its bytes.\<close>

datatype content =
    PrivateKeyPEM key
  | CertificatePEM x509
  | PKCS8DER key
  | AvbPublicKey key
  | Text string
  | Empty

text \<open>
  The world a run acts on: the files (by path), the paths at which the operating system
  refuses to create or write a file, the clock in seconds, the seconds that pass before
  each of the coming readings of the clock (none left: no time passes), and the entropy
  counter.
\<close>

record world =
  files :: "path \<Rightarrow> content option"
  denied :: "path set"
  clock :: int
  ticks :: "nat list"
  entropy :: nat

text \<open>
  A statement sequence that may raise: the result is the error or the value, with the
  world as the statements left it (the writes done before a raise stay done).
\<close>

type_synonym 'a io = "world \<Rightarrow> (error + 'a) \<times> world"

definition io_return :: "'a \<Rightarrow> 'a io" where
  "io_return x w = (Inr x, w)"

definition io_bind :: "'a io \<Rightarrow> ('a \<Rightarrow> 'b io) \<Rightarrow> 'b io" where
  "io_bind m f w = (case m w of (Inl e, w') \<Rightarrow> (Inl e, w') | (Inr x, w') \<Rightarrow> f x w')"

text \<open>\<^verbatim>\<open>path.exists()\<close>.\<close>

definition exists :: "world \<Rightarrow> path \<Rightarrow> bool" where
  "exists w p = (files w p \<noteq> None)"

text \<open>\<^verbatim>\<open>path.write_bytes(data)\<close> and \<^verbatim>\<open>path.write_text(data)\<close>.\<close>

definition write_bytes :: "path \<Rightarrow> content \<Rightarrow> unit io" where
  "write_bytes p c w =
     (if p \<in> denied w then (Inl OSError, w)
      else (Inr (), w\<lparr>files := (files w)(p \<mapsto> c)\<rparr>))"

text \<open>\<^verbatim>\<open>key = crypto.PKey(); key.generate_key(crypto.TYPE_RSA, nbits)\<close>.\<close>

definition generate_key :: "nat \<Rightarrow> key io" where
  "generate_key nbits w =
     (Inr \<lparr>bits = nbits, material = entropy w\<rparr>, w\<lparr>entropy := Suc (entropy w)\<rparr>)"

text \<open>
  The X509 library is not part of the repository. It knows the seven subject fields and
  bounds the length of their values: \<open>C\<close> has two characters; \<open>ST\<close>, \<open>L\<close> and
  \<open>emailAddress\<close> one to 128; \<open>O\<close>, \<open>OU\<close> and \<open>CN\<close> one to 64. Values
  are taken as ASCII, one \<open>char\<close> per character.
\<close>

definition value_bounds :: "(string \<times> nat \<times> nat) list" where
  "value_bounds =
     [(''C'', 2, 2), (''ST'', 1, 128), (''L'', 1, 128), (''O'', 1, 64), (''OU'', 1, 64),
      (''CN'', 1, 64), (''emailAddress'', 1, 128)]"

text \<open>
  \<^verbatim>\<open>cert_obj.get_subject().F = v\<close>: an entry of the same field is removed, the new
  one is added at the end; the library raises for a field it does not know and for a
  value outside the bounds of its field.
\<close>

definition set_subject_attr :: "string \<Rightarrow> string \<Rightarrow> x509 \<Rightarrow> error + x509" where
  "set_subject_attr f v c =
     (case map_of value_bounds f of
        None \<Rightarrow> Inl AttributeError
      | Some (lo, hi) \<Rightarrow>
          (if lo \<le> length v \<and> length v \<le> hi
           then Inr (c\<lparr>subject := filter (\<lambda>e. fst e \<noteq> f) (subject c) @ [(f, v)]\<rparr>)
           else Inl CryptoError))"

text \<open>
  The statements \<^verbatim>\<open>cert_obj.get_subject().F = subject_params(F, custom)[1]\<close>, in
  order; the first one that raises ends the sequence.
\<close>

fun set_subject_attrs ::
  "(string \<times> (string, string) dict option) list \<Rightarrow> x509 \<Rightarrow> error + x509" where
  "set_subject_attrs [] c = Inr c"
| "set_subject_attrs ((f, custom) # rest) c =
     (case subject_value f custom of
        Inl e \<Rightarrow> Inl e
      | Inr v \<Rightarrow>
          (case set_subject_attr f v c of
             Inl e \<Rightarrow> Inl e
           | Inr c' \<Rightarrow> set_subject_attrs rest c'))"

text \<open>
  \<^verbatim>\<open>gmtime_adj_notBefore(amount)\<close> and \<^verbatim>\<open>gmtime_adj_notAfter(amount)\<close> set a
  bound to the current time plus \<open>amount\<close> seconds: each call reads the clock, after
  the time that passes before that reading.
\<close>

definition gmtime_adj :: "int \<Rightarrow> int io" where
  "gmtime_adj amount w =
     (let now = clock w + int (case ticks w of [] \<Rightarrow> 0 | d # _ \<Rightarrow> d)
      in (Inr (now + amount), w\<lparr>clock := now, ticks := tl (ticks w)\<rparr>))"

text \<open>
  The certificate block the two generators share (lines 66 to 80 and 124 to 138 of the
  source), which differ only in the second argument of the \<open>CN\<close> lookup: absent for a
  platform key, \<^verbatim>\<open>{'CN': apex}\<close> for an apex key. The two validity bounds are set
  by two calls, each relative to the time it reads.
\<close>

definition make_certificate :: "(string, string) dict option \<Rightarrow> key \<Rightarrow> x509 io" where
  "make_certificate cn_custom k w =
     (case set_subject_attrs
             [(''C'', None), (''ST'', None), (''L'', None), (''O'', None), (''OU'', None),
              (''CN'', cn_custom), (''emailAddress'', None)] X509 of
        Inl e \<Rightarrow> (Inl e, w)
      | Inr c1 \<Rightarrow>
          (let c2 = c1\<lparr>serial_number := 1\<rparr>
           in io_bind (gmtime_adj 0) (\<lambda>t1.
              io_bind (gmtime_adj (10000 * 24 * 60 * 60)) (\<lambda>t2.
                (let c3 = c2\<lparr>notBefore := t1\<rparr>;
                     c4 = c3\<lparr>notAfter := t2\<rparr>;
                     c5 = c4\<lparr>issuer := subject c4\<rparr>;
                     c6 = c5\<lparr>pubkey := Some k\<rparr>;
                     c7 = c6\<lparr>signature := Some (k, ''sha256'')\<rparr>
                 in io_return c7))) w))"

text \<open>
  Modelled from the spec: \<^verbatim>\<open>AvbTool.extract_public_key\<close> (module
  \<^verbatim>\<open>gen_keys_py.avbtool\<close>) is not among the sources. Given the path of a file
  that holds a private key and a destination, it writes the public key of that key to
  the destination and fails otherwise. The wrapper of the source opens the destination
  for writing first (\<^verbatim>\<open>open(output_path, 'wb')\<close>), which creates or empties it.
\<close>

definition extract_public_key :: "path \<Rightarrow> path \<Rightarrow> unit io" where
  "extract_public_key key_apex_path pubkey_output_path w =
     (if pubkey_output_path \<in> denied w then (Inl OSError, w)
      else
        (let w1 = w\<lparr>files := (files w)(pubkey_output_path \<mapsto> Empty)\<rparr>
         in (case files w1 key_apex_path of
               Some (PrivateKeyPEM k) \<Rightarrow>
                 (Inr (), w1\<lparr>files := (files w1)(pubkey_output_path \<mapsto> AvbPublicKey k)\<rparr>)
             | _ \<Rightarrow> (Inl ExtractionFailure, w1))))"

section \<open>The bundle generators\<close>

text \<open>
  \<^verbatim>\<open>generate_single_platform_key(cert)\<close>; \<open>certs\<close> is \<^verbatim>\<open>CERTS_PATH\<close>.
  The PKCS8 file is the DER encoding of the same key, read back from its PEM dump.
\<close>

definition generate_single_platform_key ::
  "path \<Rightarrow> string \<Rightarrow> (string \<times> string \<times> string) io" where
  "generate_single_platform_key certs cert w =
     (let key_platform = joinpath certs (cert @ ''.pem'');
          x509_file = Path (cert @ ''.x509.pem'');
          pk8_file = Path (cert @ ''.pk8'')
      in io_bind
           (if list_ex (\<lambda>p. \<not> exists w p) [key_platform, x509_file, pk8_file]
            then
              io_bind (generate_key RSA_PLATFORM_KEY_SIZE) (\<lambda>k.
              io_bind (write_bytes key_platform (PrivateKeyPEM k)) (\<lambda>_.
              io_bind (make_certificate None k) (\<lambda>cert_obj.
              io_bind (write_bytes x509_file (CertificatePEM cert_obj)) (\<lambda>_.
              write_bytes pk8_file (PKCS8DER k)))))
            else io_return ())
           (\<lambda>_. io_return (str_path key_platform, str_path x509_file, str_path pk8_file))
           w)"

text \<open>\<^verbatim>\<open>generate_single_apex_key(apex)\<close>.\<close>

definition generate_single_apex_key ::
  "string \<Rightarrow> (string \<times> string \<times> string \<times> string \<times> string) io" where
  "generate_single_apex_key apex w =
     (let key_apex = Path (apex @ ''.pem'');
          x509_file = Path (apex @ ''.certificate.override.x509.pem'');
          pk8_file = Path (apex @ ''.certificate.override.pk8'');
          avbpubkey_file = Path (apex @ ''.avbpubkey'');
          pubkey_file = Path (apex @ ''.pubkey'')
      in io_bind
           (if list_ex (\<lambda>p. \<not> exists w p) [key_apex, x509_file, pk8_file]
               \<or> (\<not> exists w pubkey_file \<and> \<not> exists w avbpubkey_file)
            then
              io_bind (generate_key RSA_APEX_KEY_SIZE) (\<lambda>k.
              io_bind (write_bytes key_apex (PrivateKeyPEM k)) (\<lambda>_.
              io_bind (if apex = ''com.android.vndk''
                       then extract_public_key key_apex pubkey_file
                       else extract_public_key key_apex avbpubkey_file) (\<lambda>_.
              io_bind (make_certificate (Some [(''CN'', apex)]) k) (\<lambda>cert_obj.
              io_bind (write_bytes x509_file (CertificatePEM cert_obj)) (\<lambda>_.
              write_bytes pk8_file (PKCS8DER k))))))
            else io_return ())
           (\<lambda>_. io_return (str_path key_apex, str_path x509_file, str_path pk8_file,
                            str_path avbpubkey_file, str_path pubkey_file))
           w)"

section \<open>The orchestrator\<close>

text \<open>
  Modelled from the spec: the catalog module \<^verbatim>\<open>gen_keys_py.keys\<close> is not among the
  sources. Its four lists of names are parameters of everything below.
\<close>

record catalog =
  platform_keys :: "string list"
  apex_keys :: "string list"
  apex_hardware_keys :: "string list"
  apex_app_keys :: "string list"

datatype task = PlatformTask string | ApexTask string

datatype result =
    PlatformResult string string string
  | ApexResult string string string string string

text \<open>What a worker does with a submitted task.\<close>

definition run_task :: "path \<Rightarrow> task \<Rightarrow> result io" where
  "run_task certs t =
     (case t of
        PlatformTask cert \<Rightarrow>
          io_bind (generate_single_platform_key certs cert)
            (\<lambda>(a, b, c). io_return (PlatformResult a b c))
      | ApexTask apex \<Rightarrow>
          io_bind (generate_single_apex_key apex)
            (\<lambda>(a, b, c, d, e). io_return (ApexResult a b c d e)))"

text \<open>
  The pool completes the submitted tasks in an order of its own. The order is a
  parameter: a list of choices, the head of which says how many of the later tasks
  complete before the first one. Every choice list gives a permutation of the tasks and
  every permutation is given by one. Each task is taken as one step: what two tasks do
  to a file they share while they overlap is not modelled.
\<close>

fun arrange :: "nat list \<Rightarrow> 'a list \<Rightarrow> 'a list" where
  "arrange cs [] = []"
| "arrange cs (x # xs) =
     (let rest = arrange (tl cs) xs; c = (case cs of [] \<Rightarrow> 0 | c # _ \<Rightarrow> c)
      in take c rest @ x # drop c rest)"

text \<open>
  The tasks run one after another in completion order; a task that raises leaves its
  error in its future and the next task still runs.
\<close>

fun run_all ::
  "path \<Rightarrow> (nat \<times> task) list \<Rightarrow> world \<Rightarrow> (nat \<times> (error + result)) list \<times> world" where
  "run_all certs [] w = ([], w)"
| "run_all certs ((i, t) # ts) w =
     (case run_task certs t w of
        (r, w1) \<Rightarrow> (case run_all certs ts w1 of (rs, w2) \<Rightarrow> ((i, r) # rs, w2)))"

text \<open>
  \<^verbatim>\<open>[future.result() for future in futures]\<close>: the first future that holds an error
  raises it.
\<close>

fun collect :: "(error + result) list \<Rightarrow> error + result list" where
  "collect [] = Inr []"
| "collect (f # fs) =
     (case f of
        Inl e \<Rightarrow> Inl e
      | Inr r \<Rightarrow> (case collect fs of Inl e \<Rightarrow> Inl e | Inr rs \<Rightarrow> Inr (r # rs)))"

text \<open>
  \<^verbatim>\<open>CERTS_PATH.mkdir(parents=True, exist_ok=True)\<close>. Directories are not tracked, so
  a successful call changes nothing; the call fails when a file occupies the path.
\<close>

definition mkdir :: "path \<Rightarrow> unit io" where
  "mkdir p w = (if files w p \<noteq> None then (Inl OSError, w) else (Inr (), w))"

text \<open>
  \<^verbatim>\<open>generate_keys()\<close>. The futures are listed in submission order, platform tasks
  first: sorting the completed tasks by their submission index gives each future its
  outcome. Leaving the \<^verbatim>\<open>with\<close> block waits for every submitted task, so the world
  returned is the one after all of them, also when a result raises.
\<close>

definition generate_keys ::
  "catalog \<Rightarrow> string \<Rightarrow> nat list \<Rightarrow> (result list \<times> result list) io" where
  "generate_keys keys home sched =
     io_bind (mkdir (CERTS_PATH home)) (\<lambda>_ w.
       (let tasks = map PlatformTask (platform_keys keys) @ map ApexTask (apex_keys keys)
        in case run_all (CERTS_PATH home) (arrange sched (enumerate 0 tasks)) w of
             (completed, w1) \<Rightarrow>
               (let futures = map snd (sort_key fst completed);
                    platform_futures = take (length (platform_keys keys)) futures;
                    apex_futures = drop (length (platform_keys keys)) futures
                in case collect platform_futures of
                     Inl e \<Rightarrow> (Inl e, w1)
                   | Inr platform_results \<Rightarrow>
                       (case collect apex_futures of
                          Inl e \<Rightarrow> (Inl e, w1)
                        | Inr apex_results \<Rightarrow> (Inr (platform_results, apex_results), w1)))))"

section \<open>The configuration files\<close>

definition nl :: string where
  "nl = [CHR 0x0A]"

definition dquote :: string where
  "dquote = [CHR 0x22]"

definition backslash :: string where
  "backslash = [CHR 0x5C]"

definition cert_block :: "string \<Rightarrow> string" where
  "cert_block apex =
     ''android_app_certificate {'' @ nl
     @ ''    name: '' @ dquote @ apex @ ''.certificate.override'' @ dquote @ '','' @ nl
     @ ''    certificate: '' @ dquote @ apex @ ''.certificate.override'' @ dquote @ '','' @ nl
     @ ''}''"

text \<open>\<^verbatim>\<open>generate_android_bp()\<close>.\<close>

definition generate_android_bp :: "catalog \<Rightarrow> unit io" where
  "generate_android_bp keys =
     (let cert_blocks = join (nl @ nl) (map cert_block (apex_keys keys));
          content = ''// DO NOT EDIT THIS FILE MANUALLY'' @ nl @ nl @ cert_blocks @ nl
      in write_bytes (Path ''Android.bp'') (Text content))"

text \<open>
  The lines of one make variable: every line but the last ends in a space and a
  backslash.
\<close>

definition continued :: "(string \<Rightarrow> string) \<Rightarrow> string list \<Rightarrow> string" where
  "continued line xs =
     join nl
       (map (\<lambda>(i, k). line k @ (if int i < int (length xs) - 1 then '' '' @ backslash else []))
          (enumerate 0 xs))"

text \<open>\<^verbatim>\<open>generate_makefile()\<close>.\<close>

definition generate_makefile :: "catalog \<Rightarrow> unit io" where
  "generate_makefile keys =
     (let mk_file = Path ''keys.mk'';
          sections =
            [''# DO NOT EDIT THIS FILE MANUALLY'',
             [],
             ''PRODUCT_CERTIFICATE_OVERRIDES := '' @ backslash,
             continued (\<lambda>k. ''    '' @ k @ '':'' @ k @ ''.certificate.override'') (apex_keys keys),
             [],
             ''PRODUCT_CERTIFICATE_OVERRIDES += '' @ backslash,
             continued (\<lambda>k. ''    '' @ k @ '':com.android.hardware.certificate.override'')
               (apex_hardware_keys keys),
             [],
             ''PRODUCT_CERTIFICATE_OVERRIDES += '' @ backslash,
             continued (\<lambda>k. ''    '' @ k) (apex_app_keys keys),
             [],
             ''PRODUCT_DEFAULT_DEV_CERTIFICATE := vendor/lineage-priv/keys/releasekey'',
             ''PRODUCT_EXTRA_RECOVERY_KEYS += vendor/lineage-priv/keys/signed'',
             []]
      in write_bytes mk_file (Text (join nl sections)))"


section \<open>Auxiliary notions for the statements\<close>

text \<open>The last component of a name, to which a suffix is attached.\<close>

definition basename :: "string \<Rightarrow> string" where
  "basename n = last (split_sep n)"

text \<open>The paths the platform generator derives from a name (lines 53 to 55).\<close>

definition platform_paths :: "path \<Rightarrow> string \<Rightarrow> path list" where
  "platform_paths certs cert =
     [joinpath certs (cert @ ''.pem''), Path (cert @ ''.x509.pem''), Path (cert @ ''.pk8'')]"

text \<open>The paths the apex generator derives from a name (lines 103 to 107).\<close>

definition apex_paths :: "string \<Rightarrow> path list" where
  "apex_paths apex =
     [Path (apex @ ''.pem''), Path (apex @ ''.certificate.override.x509.pem''),
      Path (apex @ ''.certificate.override.pk8''), Path (apex @ ''.avbpubkey''),
      Path (apex @ ''.pubkey'')]"

definition task_paths :: "path \<Rightarrow> task \<Rightarrow> path list" where
  "task_paths certs t =
     (case t of PlatformTask cert \<Rightarrow> platform_paths certs cert | ApexTask apex \<Rightarrow> apex_paths apex)"

text \<open>The tuple of strings a task returns when it does not raise.\<close>

definition task_result :: "path \<Rightarrow> task \<Rightarrow> result" where
  "task_result certs t =
     (case t of
        PlatformTask cert \<Rightarrow>
          (case map str_path (platform_paths certs cert) of
             [a, b, c] \<Rightarrow> PlatformResult a b c)
      | ApexTask apex \<Rightarrow>
          (case map str_path (apex_paths apex) of
             [a, b, c, d, e] \<Rightarrow> ApexResult a b c d e))"

text \<open>The subject the certificate block builds, with the given \<open>CN\<close>.\<close>

definition subject_entries :: "string \<Rightarrow> (string \<times> string) list" where
  "subject_entries cn =
     [(''C'', ''US''), (''ST'', ''California''), (''L'', ''Mountain View''), (''O'', ''Android''),
      (''OU'', ''Android''), (''CN'', cn), (''emailAddress'', ''android@android.com'')]"

text \<open>
  The times the two validity calls of one generation read: the clock after the seconds
  that pass before the first reading, and after those that pass before the second.
\<close>

definition first_reading :: "world \<Rightarrow> int" where
  "first_reading w = clock w + int (case ticks w of [] \<Rightarrow> 0 | d # _ \<Rightarrow> d)"

definition second_reading :: "world \<Rightarrow> int" where
  "second_reading w = first_reading w + int (case tl (ticks w) of [] \<Rightarrow> 0 | d # _ \<Rightarrow> d)"

text \<open>A name the X509 library accepts as a \<open>CN\<close>.\<close>

definition accepted_cn :: "string \<Rightarrow> bool" where
  "accepted_cn n = (1 \<le> length n \<and> length n \<le> 64)"

text \<open>A name with no directory part: no separator in it.\<close>

definition plain :: "string \<Rightarrow> bool" where
  "plain n = (CHR ''/'' \<notin> set n)"

text \<open>
  A path lies under a directory when it has the directory's anchor and its components
  properly extend the directory's; it lies in the current working directory when it is
  relative and has one component.
\<close>

definition under_dir :: "path \<Rightarrow> path \<Rightarrow> bool" where
  "under_dir d p = (anchor p = anchor d \<and> strict_prefix (parts d) (parts p))"

definition in_cwd :: "path \<Rightarrow> bool" where
  "in_cwd p = (anchor p = [] \<and> length (parts p) = 1)"

text \<open>
  The file a path names for a process whose working directory is \<open>cwd\<close>
  (\<^verbatim>\<open>Path.absolute()\<close>): an absolute path names itself, a relative one is taken
  from \<open>cwd\<close>.
\<close>

definition resolve :: "path \<Rightarrow> path \<Rightarrow> path" where
  "resolve cwd p =
     (if anchor p = [] then \<lparr>anchor = anchor cwd, parts = parts cwd @ parts p\<rparr> else p)"

text \<open>
  A name that no suffix of the generators can confuse with another: it has no separator
  and does not end in \<open>.x509\<close> or \<open>.certificate.override\<close>.
\<close>

definition safe_name :: "string \<Rightarrow> bool" where
  "safe_name n = (plain n \<and> \<not> suffix ''.x509'' n \<and> \<not> suffix ''.certificate.override'' n)"

text \<open>The suffixes of the files written in the current working directory.\<close>

definition cwd_suffixes :: "string list" where
  "cwd_suffixes =
     [''.x509.pem'', ''.pk8'', ''.pem'', ''.certificate.override.x509.pem'',
      ''.certificate.override.pk8'', ''.avbpubkey'', ''.pubkey'']"

text \<open>The pairs of these suffixes of which the first is a proper suffix of the second.\<close>

definition suffix_clashes :: "(string \<times> string) list" where
  "suffix_clashes =
     [(''.pem'', ''.x509.pem''), (''.pem'', ''.certificate.override.x509.pem''),
      (''.x509.pem'', ''.certificate.override.x509.pem''),
      (''.pk8'', ''.certificate.override.pk8'')]"

text \<open>The catalog name of a task, and the suffixes of its files in the working directory.\<close>

definition task_name :: "task \<Rightarrow> string" where
  "task_name t = (case t of PlatformTask n \<Rightarrow> n | ApexTask n \<Rightarrow> n)"

definition task_suffixes :: "task \<Rightarrow> string list" where
  "task_suffixes t =
     (case t of
        PlatformTask _ \<Rightarrow> [''.x509.pem'', ''.pk8'']
      | ApexTask _ \<Rightarrow>
          [''.pem'', ''.certificate.override.x509.pem'', ''.certificate.override.pk8'',
           ''.avbpubkey'', ''.pubkey''])"

text \<open>A world with no file, nothing refused, for the examples.\<close>

definition world0 :: world where
  "world0 = \<lparr>files = (\<lambda>_. None), denied = {}, clock = 1700000000, ticks = [], entropy = 7\<rparr>"

text \<open>A partial platform bundle (only the certificate is there) and a complete one.\<close>

definition world_partial :: world where
  "world_partial =
     world0\<lparr>files := (files world0)(Path ''releasekey.x509.pem'' \<mapsto> Text ''stale'')\<rparr>"

definition world_complete :: world where
  "world_complete =
     world0\<lparr>files := (files world0)
       (joinpath (CERTS_PATH ''/home/u'') ''releasekey.pem'' \<mapsto> Text ''key'',
        Path ''releasekey.x509.pem'' \<mapsto> Text ''certificate'',
        Path ''releasekey.pk8'' \<mapsto> Text ''pk8'')\<rparr>"

text \<open>
  Apex bundles of \<open>com.android.vndk\<close>: the three core files alone, and with one of the
  two public-key files.
\<close>

definition world_apex_core :: world where
  "world_apex_core =
     world0\<lparr>files := (files world0)
       (Path ''com.android.vndk.pem'' \<mapsto> Text ''key'',
        Path ''com.android.vndk.certificate.override.x509.pem'' \<mapsto> Text ''certificate'',
        Path ''com.android.vndk.certificate.override.pk8'' \<mapsto> Text ''pk8'')\<rparr>"

definition world_apex_avb :: world where
  "world_apex_avb =
     world_apex_core\<lparr>files := (files world_apex_core)
       (Path ''com.android.vndk.avbpubkey'' \<mapsto> Text ''public key'')\<rparr>"

definition world_apex_legacy :: world where
  "world_apex_legacy =
     world_apex_core\<lparr>files := (files world_apex_core)
       (Path ''com.android.vndk.pubkey'' \<mapsto> Text ''public key'')\<rparr>"

text \<open>
  A catalog of one platform and one apex entry, and a world in which the PKCS8 file of
  the platform entry cannot be written.
\<close>

definition catalog1 :: catalog where
  "catalog1 = \<lparr>platform_keys = [''releasekey''], apex_keys = [''com.android.adbd''],
               apex_hardware_keys = [], apex_app_keys = []\<rparr>"



definition recognized :: "string list" where
  "recognized = [''C'', ''ST'', ''L'', ''O'', ''OU'', ''CN'', ''emailAddress'']"

section \<open>Properties of the subject resolver\<close>

lemma map_of_defaults_None:
  "param \<notin> set recognized \<Longrightarrow> map_of defaults param = None"
  by (simp add: defaults_def recognized_def)

text \<open>
  C4, as amended. For a field name outside the seven recognised ones and no override,
  \<open>subject_params\<close> does not fail: it returns \<^verbatim>\<open>None\<close>. No \<open>UnknownField\<close>
  error is raised; the failure the caller sees is the \<open>TypeError\<close> of the subscript
  \<^verbatim>\<open>[1]\<close> applied to that \<^verbatim>\<open>None\<close>.
\<close>

theorem subject_params_unrecognized_returns_None:
  "param \<notin> set recognized \<Longrightarrow>
     subject_params param None = Inr None \<and> subject_value param None = Inl TypeError"
  by (simp add: subject_params_def subject_value_def subscript_def map_of_defaults_None)

theorem subject_params_unrecognized_returns_None_witness:
  "''bogus'' \<notin> set recognized \<and> subject_params ''bogus'' None = Inr None
     \<and> subject_value ''bogus'' None = Inl TypeError"
proof -
  have h: "''bogus'' \<notin> set recognized" by (simp add: recognized_def)
  show ?thesis using h subject_params_unrecognized_returns_None [OF h] by simp
qed

text \<open>
  C4 as stated fails: \<open>bogus\<close> is not a recognised field, and the resolver called
  with no override returns a value instead of failing with \<open>UnknownField\<close>.
\<close>

theorem subject_params_bogus_counterexample:
  "\<not> (\<forall>param. param \<notin> set recognized \<longrightarrow> subject_params param None = Inl UnknownField)"
proof
  assume a: "\<forall>param. param \<notin> set recognized \<longrightarrow> subject_params param None = Inl UnknownField"
  have "''bogus'' \<notin> set recognized" by (simp add: recognized_def)
  with a have "subject_params ''bogus'' None = Inl UnknownField" by blast
  then show False by (simp add: subject_params_def)
qed

text \<open>
  C10. The override is field-generic. For every field name, recognised or not, and every
  override dictionary that holds the name, \<open>subject_params\<close> succeeds and returns the
  override value (as the dictionary \<^verbatim>\<open>{1: value}\<close>, so that the caller's subscript
  \<^verbatim>\<open>[1]\<close> gives the value itself).
\<close>

theorem subject_params_override_generic:
  "map_of custom param = Some v \<Longrightarrow>
     subject_params param (Some custom) = Inr (Some [(1, v)])
     \<and> subject_value param (Some custom) = Inr v"
proof -
  assume a: "map_of custom param = Some v"
  then have ne: "custom \<noteq> []" by auto
  have "map_of (AList.update param [(1, v)] defaults) param = Some [(1, v)]"
    by (simp add: update_conv')
  with a ne show ?thesis
    by (simp add: subject_params_def subject_value_def subscript_def)
qed

theorem subject_params_override_generic_witness:
  "map_of [(''OU'', ''Lab''), (''bogus'', ''X'')] ''OU'' = Some ''Lab''
   \<and> subject_params ''OU'' (Some [(''OU'', ''Lab''), (''bogus'', ''X'')]) = Inr (Some [(1, ''Lab'')])
   \<and> map_of [(''OU'', ''Lab''), (''bogus'', ''X'')] ''bogus'' = Some ''X''
   \<and> subject_params ''bogus'' (Some [(''OU'', ''Lab''), (''bogus'', ''X'')]) = Inr (Some [(1, ''X'')])
   \<and> subject_value ''bogus'' (Some [(''OU'', ''Lab''), (''bogus'', ''X'')]) = Inr ''X''"
proof -
  have h1: "map_of [(''OU'', ''Lab''), (''bogus'', ''X'')] ''OU'' = Some ''Lab''" by simp
  have h2: "map_of [(''OU'', ''Lab''), (''bogus'', ''X'')] ''bogus'' = Some ''X''" by simp
  show ?thesis
    using h1 h2 subject_params_override_generic [OF h1] subject_params_override_generic [OF h2]
    by simp
qed

section \<open>Properties of paths\<close>

lemma split_sep_nonempty: "split_sep xs \<noteq> []"
  by (induction xs) (auto split: list.splits)

lemma split_sep_plain: "CHR ''/'' \<notin> set s \<Longrightarrow> split_sep s = [s]"
  by (induction s) auto

lemma split_sep_append:
  "CHR ''/'' \<notin> set s \<Longrightarrow> split_sep (n @ s) = butlast (split_sep n) @ [last (split_sep n) @ s]"
proof (induction n)
  case Nil
  then show ?case by (simp add: split_sep_plain)
next
  case (Cons c n)
  obtain p ps where sp: "split_sep n = p # ps"
    using split_sep_nonempty [of n] by (cases "split_sep n") auto
  show ?case
  proof (cases "c = CHR ''/''")
    case True
    with Cons show ?thesis by (simp add: split_sep_nonempty)
  next
    case False
    with Cons sp show ?thesis by (cases ps) auto
  qed
qed

lemma last_split_sep_slash: "last (split_sep (CHR ''/'' # cs)) = last (split_sep cs)"
  by (simp add: split_sep_nonempty)

lemma splitroot_append:
  assumes "CHR ''/'' \<notin> set s" "s \<noteq> []"
  shows "\<exists>m. snd (splitroot (n @ s)) = m @ s \<and> last (split_sep m) = last (split_sep n)"
proof -
  from assms have t: "take 1 s \<noteq> ''/''" by (cases s) auto
  show ?thesis
  proof (cases n)
    case Nil
    with t show ?thesis by (auto simp: splitroot_def)
  next
    case n1: (Cons a n1)
    show ?thesis
    proof (cases n1)
      case Nil
      with n1 t show ?thesis
        by (cases s) (auto simp del: split_sep.simps simp add: splitroot_def last_split_sep_slash)
    next
      case (Cons b n2)
      with n1 t show ?thesis
        by (cases n2) (auto simp del: split_sep.simps simp add: splitroot_def last_split_sep_slash)
    qed
  qed
qed

lemma parts_Path_append:
  assumes "CHR ''/'' \<notin> set s" "s \<noteq> []" "s \<noteq> ''.''"
  shows "\<exists>front. parts (Path (n @ s)) = front @ [basename n @ s]"
proof -
  obtain m where m: "snd (splitroot (n @ s)) = m @ s" "last (split_sep m) = last (split_sep n)"
    using splitroot_append [OF assms(1,2)] by blast
  have keep: "last (split_sep m) @ s \<noteq> [] \<and> last (split_sep m) @ s \<noteq> ''.''"
    using assms(2,3) by (auto simp: append_eq_Cons_conv)
  have "parts (Path (n @ s)) =
          filter (\<lambda>x. x \<noteq> [] \<and> x \<noteq> ''.'') (split_sep (m @ s))"
    using m(1) by (cases "splitroot (n @ s)") (simp add: Path_def)
  also have "\<dots> = filter (\<lambda>x. x \<noteq> [] \<and> x \<noteq> ''.'') (butlast (split_sep m)) @ [last (split_sep m) @ s]"
    using keep by (simp add: split_sep_append [OF assms(1)])
  finally show ?thesis using m(2) by (auto simp: basename_def)
qed

lemma parts_joinpath_append:
  assumes "CHR ''/'' \<notin> set s" "s \<noteq> []" "s \<noteq> ''.''"
  shows "\<exists>front. parts (joinpath p (n @ s)) = front @ [basename n @ s]"
proof -
  obtain front where "parts (Path (n @ s)) = front @ [basename n @ s]"
    using parts_Path_append [OF assms] by blast
  then show ?thesis by (auto simp: joinpath_def Let_def)
qed

lemma Path_plain:
  assumes "CHR ''/'' \<notin> set t" "t \<noteq> []" "t \<noteq> ''.''"
  shows "Path t = \<lparr>anchor = [], parts = [t]\<rparr>"
proof -
  from assms have "take 1 t \<noteq> ''/''" by (cases t) auto
  then have "splitroot t = ([], t)" by (simp add: splitroot_def)
  with assms show ?thesis by (simp add: Path_def split_sep_plain)
qed

lemma str_path_plain:
  assumes "CHR ''/'' \<notin> set t" "t \<noteq> []" "t \<noteq> ''.''"
  shows "str_path (Path t) = t"
  using assms by (simp add: Path_plain str_path_def)

lemma Path_append_neq:
  assumes "CHR ''/'' \<notin> set s1" "s1 \<noteq> []" "s1 \<noteq> ''.''"
      and "CHR ''/'' \<notin> set s2" "s2 \<noteq> []" "s2 \<noteq> ''.''" and "s1 \<noteq> s2"
  shows "Path (n @ s1) \<noteq> Path (n @ s2)"
proof
  assume eq: "Path (n @ s1) = Path (n @ s2)"
  obtain f1 where f1: "parts (Path (n @ s1)) = f1 @ [basename n @ s1]"
    using parts_Path_append [OF assms(1-3)] by blast
  obtain f2 where f2: "parts (Path (n @ s2)) = f2 @ [basename n @ s2]"
    using parts_Path_append [OF assms(4-6)] by blast
  from eq have "parts (Path (n @ s1)) = parts (Path (n @ s2))" by (rule arg_cong)
  with f1 f2 have "f1 @ [basename n @ s1] = f2 @ [basename n @ s2]" by (simp only:)
  then have "basename n @ s1 = basename n @ s2" by (simp only: append1_eq_conv)
  then have "s1 = s2" by (simp only: same_append_eq)
  with assms(7) show False by (simp only: not_False_eq_True simp_thms)
qed

lemma joinpath_append_neq:
  assumes "CHR ''/'' \<notin> set s1" "s1 \<noteq> []" "s1 \<noteq> ''.''"
      and "CHR ''/'' \<notin> set s2" "s2 \<noteq> []" "s2 \<noteq> ''.''" and "s1 \<noteq> s2"
  shows "joinpath p (n @ s1) \<noteq> Path (n @ s2)"
proof
  assume eq: "joinpath p (n @ s1) = Path (n @ s2)"
  obtain f1 where f1: "parts (joinpath p (n @ s1)) = f1 @ [basename n @ s1]"
    using parts_joinpath_append [OF assms(1-3)] by blast
  obtain f2 where f2: "parts (Path (n @ s2)) = f2 @ [basename n @ s2]"
    using parts_Path_append [OF assms(4-6)] by blast
  from eq have "parts (joinpath p (n @ s1)) = parts (Path (n @ s2))" by (rule arg_cong)
  with f1 f2 have "f1 @ [basename n @ s1] = f2 @ [basename n @ s2]" by (simp only:)
  then have "basename n @ s1 = basename n @ s2" by (simp only: append1_eq_conv)
  then have "s1 = s2" by (simp only: same_append_eq)
  with assms(7) show False by (simp only: not_False_eq_True simp_thms)
qed

lemma platform_paths_distinct: "distinct (platform_paths certs cert)"
  using joinpath_append_neq [of "''.pem''" "''.x509.pem''" certs cert]
        joinpath_append_neq [of "''.pem''" "''.pk8''" certs cert]
        Path_append_neq [of "''.x509.pem''" "''.pk8''" cert]
  by (simp add: platform_paths_def)

lemma apex_paths_distinct: "distinct (apex_paths apex)"
  using Path_append_neq [of "''.pem''" "''.certificate.override.x509.pem''" apex]
        Path_append_neq [of "''.pem''" "''.certificate.override.pk8''" apex]
        Path_append_neq [of "''.pem''" "''.avbpubkey''" apex]
        Path_append_neq [of "''.pem''" "''.pubkey''" apex]
        Path_append_neq [of "''.certificate.override.x509.pem''" "''.certificate.override.pk8''" apex]
        Path_append_neq [of "''.certificate.override.x509.pem''" "''.avbpubkey''" apex]
        Path_append_neq [of "''.certificate.override.x509.pem''" "''.pubkey''" apex]
        Path_append_neq [of "''.certificate.override.pk8''" "''.avbpubkey''" apex]
        Path_append_neq [of "''.certificate.override.pk8''" "''.pubkey''" apex]
        Path_append_neq [of "''.avbpubkey''" "''.pubkey''" apex]
  by (simp add: apex_paths_def)

section \<open>Properties of the certificate block\<close>

lemma subject_value_default:
  "subject_value ''C'' None = Inr ''US''"
  "subject_value ''ST'' None = Inr ''California''"
  "subject_value ''L'' None = Inr ''Mountain View''"
  "subject_value ''O'' None = Inr ''Android''"
  "subject_value ''OU'' None = Inr ''Android''"
  "subject_value ''CN'' None = Inr ''Android''"
  "subject_value ''emailAddress'' None = Inr ''android@android.com''"
  by (simp_all add: subject_value_def subject_params_def subscript_def defaults_def)

lemma subject_value_CN_override:
  "subject_value ''CN'' (Some [(''CN'', apex)]) = Inr apex"
  by (simp add: subject_value_def subject_params_def subscript_def update_conv')

lemma set_subject_attr_default:
  "set_subject_attr ''C'' ''US'' c =
     Inr (c\<lparr>subject := filter (\<lambda>e. fst e \<noteq> ''C'') (subject c) @ [(''C'', ''US'')]\<rparr>)"
  "set_subject_attr ''ST'' ''California'' c =
     Inr (c\<lparr>subject := filter (\<lambda>e. fst e \<noteq> ''ST'') (subject c) @ [(''ST'', ''California'')]\<rparr>)"
  "set_subject_attr ''L'' ''Mountain View'' c =
     Inr (c\<lparr>subject := filter (\<lambda>e. fst e \<noteq> ''L'') (subject c) @ [(''L'', ''Mountain View'')]\<rparr>)"
  "set_subject_attr ''O'' ''Android'' c =
     Inr (c\<lparr>subject := filter (\<lambda>e. fst e \<noteq> ''O'') (subject c) @ [(''O'', ''Android'')]\<rparr>)"
  "set_subject_attr ''OU'' ''Android'' c =
     Inr (c\<lparr>subject := filter (\<lambda>e. fst e \<noteq> ''OU'') (subject c) @ [(''OU'', ''Android'')]\<rparr>)"
  "set_subject_attr ''emailAddress'' ''android@android.com'' c =
     Inr (c\<lparr>subject := filter (\<lambda>e. fst e \<noteq> ''emailAddress'') (subject c)
                            @ [(''emailAddress'', ''android@android.com'')]\<rparr>)"
  by (simp_all add: set_subject_attr_def value_bounds_def)

lemma set_subject_attr_CN:
  "set_subject_attr ''CN'' v c =
     (if accepted_cn v
      then Inr (c\<lparr>subject := filter (\<lambda>e. fst e \<noteq> ''CN'') (subject c) @ [(''CN'', v)]\<rparr>)
      else Inl CryptoError)"
  by (simp add: set_subject_attr_def value_bounds_def accepted_cn_def)

lemma accepted_cn_Android: "accepted_cn ''Android''"
  by (simp add: accepted_cn_def)

lemma make_certificate_platform:
  "make_certificate None k w =
     (Inr \<lparr>subject = subject_entries ''Android'', issuer = subject_entries ''Android'',
           serial_number = 1, notBefore = first_reading w,
           notAfter = second_reading w + 864000000,
           pubkey = Some k, signature = Some (k, ''sha256'')\<rparr>,
      w\<lparr>clock := second_reading w, ticks := tl (tl (ticks w))\<rparr>)"
  by (simp add: make_certificate_def subject_value_default set_subject_attr_default
        set_subject_attr_CN accepted_cn_Android X509_def subject_entries_def
        io_bind_def io_return_def gmtime_adj_def Let_def first_reading_def second_reading_def)

lemma make_certificate_apex:
  "accepted_cn apex \<Longrightarrow>
   make_certificate (Some [(''CN'', apex)]) k w =
     (Inr \<lparr>subject = subject_entries apex, issuer = subject_entries apex,
           serial_number = 1, notBefore = first_reading w,
           notAfter = second_reading w + 864000000,
           pubkey = Some k, signature = Some (k, ''sha256'')\<rparr>,
      w\<lparr>clock := second_reading w, ticks := tl (tl (ticks w))\<rparr>)"
  by (simp add: make_certificate_def subject_value_default subject_value_CN_override
        set_subject_attr_default set_subject_attr_CN X509_def subject_entries_def
        io_bind_def io_return_def gmtime_adj_def Let_def first_reading_def second_reading_def)

lemma make_certificate_refused:
  "\<not> accepted_cn apex \<Longrightarrow>
   make_certificate (Some [(''CN'', apex)]) k w = (Inl CryptoError, w)"
  by (simp add: make_certificate_def subject_value_default subject_value_CN_override
        set_subject_attr_default set_subject_attr_CN X509_def)

lemma readings_after_key [simp]:
  "first_reading (w\<lparr>entropy := e\<rparr>) = first_reading w"
  "second_reading (w\<lparr>entropy := e\<rparr>) = second_reading w"
  "first_reading (w\<lparr>files := f\<rparr>) = first_reading w"
  "second_reading (w\<lparr>files := f\<rparr>) = second_reading w"
  by (simp_all add: first_reading_def second_reading_def)

section \<open>What the generators do\<close>

lemma platform_skip:
  assumes "exists w (joinpath certs (cert @ ''.pem''))"
      and "exists w (Path (cert @ ''.x509.pem''))"
      and "exists w (Path (cert @ ''.pk8''))"
  shows "generate_single_platform_key certs cert w =
           (Inr (str_path (joinpath certs (cert @ ''.pem'')),
                 str_path (Path (cert @ ''.x509.pem'')),
                 str_path (Path (cert @ ''.pk8''))), w)"
  using assms
  by (simp add: generate_single_platform_key_def Let_def io_bind_def io_return_def)

lemma platform_generate:
  assumes missing: "\<not> (exists w kp \<and> exists w xf \<and> exists w pk)"
      and kp: "kp = joinpath certs (cert @ ''.pem'')"
      and xf: "xf = Path (cert @ ''.x509.pem'')"
      and pk: "pk = Path (cert @ ''.pk8'')"
      and k: "k = \<lparr>bits = 4096, material = entropy w\<rparr>"
      and c: "c = \<lparr>subject = subject_entries ''Android'', issuer = subject_entries ''Android'',
                    serial_number = 1, notBefore = first_reading w,
                    notAfter = second_reading w + 864000000,
                    pubkey = Some k, signature = Some (k, ''sha256'')\<rparr>"
      and w2: "w2 = w\<lparr>clock := second_reading w, ticks := tl (tl (ticks w))\<rparr>"
  shows "generate_single_platform_key certs cert w =
           (if kp \<in> denied w then (Inl OSError, w\<lparr>entropy := Suc (entropy w)\<rparr>)
            else if xf \<in> denied w then
              (Inl OSError, w2\<lparr>entropy := Suc (entropy w),
                                files := (files w)(kp \<mapsto> PrivateKeyPEM k)\<rparr>)
            else if pk \<in> denied w then
              (Inl OSError, w2\<lparr>entropy := Suc (entropy w),
                                files := (files w)(kp \<mapsto> PrivateKeyPEM k, xf \<mapsto> CertificatePEM c)\<rparr>)
            else
              (Inr (str_path kp, str_path xf, str_path pk),
               w2\<lparr>entropy := Suc (entropy w),
                   files := (files w)(kp \<mapsto> PrivateKeyPEM k, xf \<mapsto> CertificatePEM c,
                                      pk \<mapsto> PKCS8DER k)\<rparr>))"
  using missing unfolding kp xf pk k c w2
  by (auto simp add: generate_single_platform_key_def Let_def io_bind_def io_return_def
        write_bytes_def generate_key_def make_certificate_platform RSA_PLATFORM_KEY_SIZE_def)


lemma apex_skip:
  assumes "exists w (Path (apex @ ''.pem''))"
      and "exists w (Path (apex @ ''.certificate.override.x509.pem''))"
      and "exists w (Path (apex @ ''.certificate.override.pk8''))"
      and "exists w (Path (apex @ ''.pubkey'')) \<or> exists w (Path (apex @ ''.avbpubkey''))"
  shows "generate_single_apex_key apex w =
           (Inr (str_path (Path (apex @ ''.pem'')),
                 str_path (Path (apex @ ''.certificate.override.x509.pem'')),
                 str_path (Path (apex @ ''.certificate.override.pk8'')),
                 str_path (Path (apex @ ''.avbpubkey'')),
                 str_path (Path (apex @ ''.pubkey''))), w)"
  using assms
  by (auto simp add: generate_single_apex_key_def Let_def io_bind_def io_return_def)

lemma apex_pub_neq_key:
  "Path (apex @ ''.pubkey'') \<noteq> Path (apex @ ''.pem'')"
  "Path (apex @ ''.avbpubkey'') \<noteq> Path (apex @ ''.pem'')"
  using apex_paths_distinct [of apex] by (auto simp: apex_paths_def)

lemma apex_generate:
  assumes missing: "\<not> (exists w ka \<and> exists w xf \<and> exists w pk
                        \<and> (exists w (Path (apex @ ''.pubkey'')) \<or> exists w (Path (apex @ ''.avbpubkey''))))"
      and ka: "ka = Path (apex @ ''.pem'')"
      and xf: "xf = Path (apex @ ''.certificate.override.x509.pem'')"
      and pk: "pk = Path (apex @ ''.certificate.override.pk8'')"
      and pub: "pub = (if apex = ''com.android.vndk'' then Path (apex @ ''.pubkey'')
                       else Path (apex @ ''.avbpubkey''))"
      and k: "k = \<lparr>bits = 4096, material = entropy w\<rparr>"
      and c: "c = \<lparr>subject = subject_entries apex, issuer = subject_entries apex,
                    serial_number = 1, notBefore = first_reading w,
                    notAfter = second_reading w + 864000000,
                    pubkey = Some k, signature = Some (k, ''sha256'')\<rparr>"
      and w2: "w2 = w\<lparr>clock := second_reading w, ticks := tl (tl (ticks w))\<rparr>"
  shows "generate_single_apex_key apex w =
           (if ka \<in> denied w then (Inl OSError, w\<lparr>entropy := Suc (entropy w)\<rparr>)
            else if pub \<in> denied w then
              (Inl OSError, w\<lparr>entropy := Suc (entropy w),
                               files := (files w)(ka \<mapsto> PrivateKeyPEM k)\<rparr>)
            else if \<not> accepted_cn apex then
              (Inl CryptoError,
               w\<lparr>entropy := Suc (entropy w),
                  files := (files w)(ka \<mapsto> PrivateKeyPEM k, pub \<mapsto> AvbPublicKey k)\<rparr>)
            else if xf \<in> denied w then
              (Inl OSError, w2\<lparr>entropy := Suc (entropy w),
                                files := (files w)(ka \<mapsto> PrivateKeyPEM k, pub \<mapsto> AvbPublicKey k)\<rparr>)
            else if pk \<in> denied w then
              (Inl OSError, w2\<lparr>entropy := Suc (entropy w),
                                files := (files w)(ka \<mapsto> PrivateKeyPEM k, pub \<mapsto> AvbPublicKey k,
                                                   xf \<mapsto> CertificatePEM c)\<rparr>)
            else
              (Inr (str_path ka, str_path xf, str_path pk,
                    str_path (Path (apex @ ''.avbpubkey'')), str_path (Path (apex @ ''.pubkey''))),
               w2\<lparr>entropy := Suc (entropy w),
                   files := (files w)(ka \<mapsto> PrivateKeyPEM k, pub \<mapsto> AvbPublicKey k,
                                      xf \<mapsto> CertificatePEM c, pk \<mapsto> PKCS8DER k)\<rparr>))"
proof (cases "apex = ''com.android.vndk''")
  case True
  with missing apex_pub_neq_key(1) [of apex] show ?thesis unfolding ka xf pk pub k c w2
    by (auto simp add: generate_single_apex_key_def Let_def io_bind_def io_return_def
          write_bytes_def generate_key_def make_certificate_apex make_certificate_refused
          RSA_APEX_KEY_SIZE_def extract_public_key_def)
next
  case False
  with missing apex_pub_neq_key(2) [of apex] show ?thesis unfolding ka xf pk pub k c w2
    by (auto simp add: generate_single_apex_key_def Let_def io_bind_def io_return_def
          write_bytes_def generate_key_def make_certificate_apex make_certificate_refused
          RSA_APEX_KEY_SIZE_def extract_public_key_def)
qed

lemma world_changed: "entropy w' = Suc (entropy w) \<Longrightarrow> w' \<noteq> w"
  by auto

section \<open>Idempotency of the platform generator\<close>

text \<open>
  C1. For every name and every world, \<open>generate_single_platform_key\<close> skips all work
  exactly when the three expected paths exist: it then returns the three paths and
  leaves the world as it was (no write, no key drawn). When one of the three is missing
  the world changes (a key is drawn), and a call that returns has written all three
  files from the one new key: the private key, a certificate that carries and is
  signed by that key, and its PKCS8 encoding, whatever was at those paths before. With
  none of the three paths refused, the call does return.
\<close>

theorem platform_key_skip_or_regenerate:
  "(let key_platform = joinpath certs (cert @ ''.pem'');
        x509_file = Path (cert @ ''.x509.pem'');
        pk8_file = Path (cert @ ''.pk8'');
        returned = (str_path key_platform, str_path x509_file, str_path pk8_file);
        k = \<lparr>bits = RSA_PLATFORM_KEY_SIZE, material = entropy w\<rparr>
    in (exists w key_platform \<and> exists w x509_file \<and> exists w pk8_file \<longrightarrow>
          generate_single_platform_key certs cert w = (Inr returned, w))
     \<and> (\<not> (exists w key_platform \<and> exists w x509_file \<and> exists w pk8_file) \<longrightarrow>
          snd (generate_single_platform_key certs cert w) \<noteq> w
        \<and> (\<forall>r w'. generate_single_platform_key certs cert w = (Inr r, w') \<longrightarrow>
              r = returned
            \<and> files w' key_platform = Some (PrivateKeyPEM k)
            \<and> (\<exists>c. files w' x509_file = Some (CertificatePEM c) \<and> pubkey c = Some k
                     \<and> signature c = Some (k, ''sha256''))
            \<and> files w' pk8_file = Some (PKCS8DER k)
            \<and> entropy w' = Suc (entropy w))
        \<and> (key_platform \<notin> denied w \<and> x509_file \<notin> denied w \<and> pk8_file \<notin> denied w \<longrightarrow>
              (\<exists>w'. generate_single_platform_key certs cert w = (Inr returned, w')))))"
proof -
  define kp where "kp = joinpath certs (cert @ ''.pem'')"
  define xf where "xf = Path (cert @ ''.x509.pem'')"
  define pk where "pk = Path (cert @ ''.pk8'')"
  define k where "k = \<lparr>bits = 4096, material = entropy w\<rparr>"
  define c where "c = \<lparr>subject = subject_entries ''Android'', issuer = subject_entries ''Android'',
                    serial_number = 1, notBefore = first_reading w, notAfter = second_reading w + 864000000,
                    pubkey = Some k, signature = Some (k, ''sha256'')\<rparr>"
  have d: "kp \<noteq> xf" "kp \<noteq> pk" "xf \<noteq> pk"
    using platform_paths_distinct [of certs cert]
    by (auto simp: platform_paths_def kp_def xf_def pk_def)
  have skip: "exists w kp \<and> exists w xf \<and> exists w pk \<Longrightarrow>
      generate_single_platform_key certs cert w = (Inr (str_path kp, str_path xf, str_path pk), w)"
    unfolding kp_def xf_def pk_def by (simp add: platform_skip)
  note gen = platform_generate [OF _ kp_def xf_def pk_def k_def c_def refl]
  have A: "exists w kp \<and> exists w xf \<and> exists w pk \<longrightarrow>
          generate_single_platform_key certs cert w = (Inr (str_path kp, str_path xf, str_path pk), w)"
    using skip by blast
  have B: "\<not> (exists w kp \<and> exists w xf \<and> exists w pk) \<longrightarrow>
          snd (generate_single_platform_key certs cert w) \<noteq> w"
  proof
    assume m: "\<not> (exists w kp \<and> exists w xf \<and> exists w pk)"
    have "entropy (snd (generate_single_platform_key certs cert w)) = Suc (entropy w)"
      unfolding gen [OF m] by simp
    then show "snd (generate_single_platform_key certs cert w) \<noteq> w"
      by (rule world_changed)
  qed
  have C: "\<not> (exists w kp \<and> exists w xf \<and> exists w pk) \<longrightarrow>
       (\<forall>r w'. generate_single_platform_key certs cert w = (Inr r, w') \<longrightarrow>
              r = (str_path kp, str_path xf, str_path pk)
            \<and> files w' kp = Some (PrivateKeyPEM k)
            \<and> (\<exists>c. files w' xf = Some (CertificatePEM c) \<and> pubkey c = Some k
                     \<and> signature c = Some (k, ''sha256''))
            \<and> files w' pk = Some (PKCS8DER k)
            \<and> entropy w' = Suc (entropy w))"
    using gen d by (auto simp: c_def split: if_splits)
  have D: "\<not> (exists w kp \<and> exists w xf \<and> exists w pk) \<longrightarrow>
       (kp \<notin> denied w \<and> xf \<notin> denied w \<and> pk \<notin> denied w \<longrightarrow>
              (\<exists>w'. generate_single_platform_key certs cert w = (Inr (str_path kp, str_path xf, str_path pk), w')))"
    using gen by auto
  from A B C D show ?thesis
    unfolding Let_def kp_def xf_def pk_def k_def RSA_PLATFORM_KEY_SIZE_def by blast
qed


lemma example_paths:
  "joinpath (CERTS_PATH ''/home/u'') (''releasekey'' @ ''.pem'') =
     \<lparr>anchor = ''/'', parts = [''home'', ''u'', ''.android-certs'', ''releasekey.pem'']\<rparr>"
  "joinpath (CERTS_PATH ''/home/u'') ''releasekey.pem'' =
     \<lparr>anchor = ''/'', parts = [''home'', ''u'', ''.android-certs'', ''releasekey.pem'']\<rparr>"
  "Path (''releasekey'' @ ''.x509.pem'') = \<lparr>anchor = [], parts = [''releasekey.x509.pem'']\<rparr>"
  "Path ''releasekey.x509.pem'' = \<lparr>anchor = [], parts = [''releasekey.x509.pem'']\<rparr>"
  "Path (''releasekey'' @ ''.pk8'') = \<lparr>anchor = [], parts = [''releasekey.pk8'']\<rparr>"
  "Path ''releasekey.pk8'' = \<lparr>anchor = [], parts = [''releasekey.pk8'']\<rparr>"
  by (simp_all add: joinpath_def CERTS_PATH_def Path_def splitroot_def)

theorem platform_key_skip_or_regenerate_witness:
  "generate_single_platform_key (CERTS_PATH ''/home/u'') ''releasekey'' world_complete =
     (Inr (''/home/u/.android-certs/releasekey.pem'', ''releasekey.x509.pem'', ''releasekey.pk8''),
      world_complete)
   \<and> exists world_partial (Path ''releasekey.x509.pem'')
   \<and> \<not> exists world_partial (Path ''releasekey.pk8'')
   \<and> (\<exists>w'. generate_single_platform_key (CERTS_PATH ''/home/u'') ''releasekey'' world_partial =
          (Inr (''/home/u/.android-certs/releasekey.pem'', ''releasekey.x509.pem'',
                ''releasekey.pk8''), w')
        \<and> files w' (Path ''releasekey.pk8'') = Some (PKCS8DER \<lparr>bits = 4096, material = 7\<rparr>)
        \<and> (\<exists>c. files w' (Path ''releasekey.x509.pem'') = Some (CertificatePEM c)))"
proof -
  have c: "exists world_complete (joinpath (CERTS_PATH ''/home/u'') ''releasekey.pem'')"
          "exists world_complete (Path ''releasekey.x509.pem'')"
          "exists world_complete (Path ''releasekey.pk8'')"
    by (simp_all add: exists_def world_complete_def example_paths)
  have p: "exists world_partial (Path ''releasekey.x509.pem'')"
          "\<not> exists world_partial (Path ''releasekey.pk8'')"
    by (simp_all add: exists_def world_partial_def world0_def example_paths)
  have nd: "denied world_partial = {}" by (simp add: world_partial_def world0_def)
  have e: "entropy world_partial = 7" by (simp add: world_partial_def world0_def)
  have s: "str_path (joinpath (CERTS_PATH ''/home/u'') ''releasekey.pem'') =
             ''/home/u/.android-certs/releasekey.pem''"
          "str_path (Path ''releasekey.x509.pem'') = ''releasekey.x509.pem''"
          "str_path (Path ''releasekey.pk8'') = ''releasekey.pk8''"
    by (simp_all add: example_paths str_path_def)
  have 1: "generate_single_platform_key (CERTS_PATH ''/home/u'') ''releasekey'' world_complete =
     (Inr (''/home/u/.android-certs/releasekey.pem'', ''releasekey.x509.pem'', ''releasekey.pk8''),
      world_complete)"
    using platform_key_skip_or_regenerate
         [where w = world_complete and certs = "CERTS_PATH ''/home/u''" and cert = "''releasekey''"]
    by (simp add: Let_def c s)
  have 2: "\<exists>w'. generate_single_platform_key (CERTS_PATH ''/home/u'') ''releasekey'' world_partial =
          (Inr (''/home/u/.android-certs/releasekey.pem'', ''releasekey.x509.pem'',
                ''releasekey.pk8''), w')
        \<and> files w' (Path ''releasekey.pk8'') = Some (PKCS8DER \<lparr>bits = 4096, material = 7\<rparr>)
        \<and> (\<exists>c. files w' (Path ''releasekey.x509.pem'') = Some (CertificatePEM c))"
    using platform_key_skip_or_regenerate
         [where w = world_partial and certs = "CERTS_PATH ''/home/u''" and cert = "''releasekey''"]
    by (simp add: Let_def p s nd e RSA_PLATFORM_KEY_SIZE_def) blast
  from 1 p 2 show ?thesis by blast
qed

section \<open>Completeness of an apex bundle\<close>

text \<open>
  C2. For every name and every world, \<open>generate_single_apex_key\<close> skips all work
  (the world is left as it was, so neither a key is drawn nor the extraction tool is
  run) exactly when the three core files exist and at least one of the two public-key
  files \<open>name.pubkey\<close>, \<open>name.avbpubkey\<close> exists; either one suffices. Otherwise
  the world changes: a new key is drawn.
\<close>

theorem apex_key_skip_condition:
  "(let key_apex = Path (apex @ ''.pem'');
        x509_file = Path (apex @ ''.certificate.override.x509.pem'');
        pk8_file = Path (apex @ ''.certificate.override.pk8'');
        avbpubkey_file = Path (apex @ ''.avbpubkey'');
        pubkey_file = Path (apex @ ''.pubkey'');
        returned = (str_path key_apex, str_path x509_file, str_path pk8_file,
                    str_path avbpubkey_file, str_path pubkey_file)
    in (exists w key_apex \<and> exists w x509_file \<and> exists w pk8_file
          \<and> (exists w pubkey_file \<or> exists w avbpubkey_file) \<longrightarrow>
          generate_single_apex_key apex w = (Inr returned, w))
     \<and> (\<not> (exists w key_apex \<and> exists w x509_file \<and> exists w pk8_file
              \<and> (exists w pubkey_file \<or> exists w avbpubkey_file)) \<longrightarrow>
          snd (generate_single_apex_key apex w) \<noteq> w
        \<and> entropy (snd (generate_single_apex_key apex w)) = Suc (entropy w)))"
proof -
  define ka where "ka = Path (apex @ ''.pem'')"
  define xf where "xf = Path (apex @ ''.certificate.override.x509.pem'')"
  define pk where "pk = Path (apex @ ''.certificate.override.pk8'')"
  define pub where "pub = (if apex = ''com.android.vndk'' then Path (apex @ ''.pubkey'')
                       else Path (apex @ ''.avbpubkey''))"
  define k where "k = \<lparr>bits = 4096, material = entropy w\<rparr>"
  define c where "c = \<lparr>subject = subject_entries apex, issuer = subject_entries apex,
                    serial_number = 1, notBefore = first_reading w, notAfter = second_reading w + 864000000,
                    pubkey = Some k, signature = Some (k, ''sha256'')\<rparr>"
  note gen = apex_generate [OF _ ka_def xf_def pk_def pub_def k_def c_def refl]
  have A: "exists w ka \<and> exists w xf \<and> exists w pk
          \<and> (exists w (Path (apex @ ''.pubkey'')) \<or> exists w (Path (apex @ ''.avbpubkey''))) \<longrightarrow>
          generate_single_apex_key apex w =
            (Inr (str_path ka, str_path xf, str_path pk,
                  str_path (Path (apex @ ''.avbpubkey'')), str_path (Path (apex @ ''.pubkey''))), w)"
    unfolding ka_def xf_def pk_def using apex_skip [of w apex] by blast
  have B: "\<not> (exists w ka \<and> exists w xf \<and> exists w pk
          \<and> (exists w (Path (apex @ ''.pubkey'')) \<or> exists w (Path (apex @ ''.avbpubkey'')))) \<longrightarrow>
          snd (generate_single_apex_key apex w) \<noteq> w
        \<and> entropy (snd (generate_single_apex_key apex w)) = Suc (entropy w)"
  proof
    assume m: "\<not> (exists w ka \<and> exists w xf \<and> exists w pk
          \<and> (exists w (Path (apex @ ''.pubkey'')) \<or> exists w (Path (apex @ ''.avbpubkey''))))"
    have e: "entropy (snd (generate_single_apex_key apex w)) = Suc (entropy w)"
      unfolding gen [OF m] by simp
    from e world_changed [OF e]
    show "snd (generate_single_apex_key apex w) \<noteq> w
        \<and> entropy (snd (generate_single_apex_key apex w)) = Suc (entropy w)"
      by blast
  qed
  from A B show ?thesis unfolding Let_def ka_def xf_def pk_def by blast
qed

lemma vndk_paths:
  "Path ''com.android.vndk.pem'' = \<lparr>anchor = [], parts = [''com.android.vndk.pem'']\<rparr>"
  "Path ''com.android.vndk.certificate.override.x509.pem'' =
     \<lparr>anchor = [], parts = [''com.android.vndk.certificate.override.x509.pem'']\<rparr>"
  "Path ''com.android.vndk.certificate.override.pk8'' =
     \<lparr>anchor = [], parts = [''com.android.vndk.certificate.override.pk8'']\<rparr>"
  "Path ''com.android.vndk.avbpubkey'' = \<lparr>anchor = [], parts = [''com.android.vndk.avbpubkey'']\<rparr>"
  "Path ''com.android.vndk.pubkey'' = \<lparr>anchor = [], parts = [''com.android.vndk.pubkey'']\<rparr>"
  by (simp_all add: Path_def splitroot_def)

lemma vndk_strs:
  "str_path (Path ''com.android.vndk.pem'') = ''com.android.vndk.pem''"
  "str_path (Path ''com.android.vndk.certificate.override.x509.pem'') =
     ''com.android.vndk.certificate.override.x509.pem''"
  "str_path (Path ''com.android.vndk.certificate.override.pk8'') =
     ''com.android.vndk.certificate.override.pk8''"
  "str_path (Path ''com.android.vndk.avbpubkey'') = ''com.android.vndk.avbpubkey''"
  "str_path (Path ''com.android.vndk.pubkey'') = ''com.android.vndk.pubkey''"
  by (simp_all add: vndk_paths str_path_def)

lemma vndk_exists:
  "exists world_apex_core (Path ''com.android.vndk.pem'')"
  "exists world_apex_core (Path ''com.android.vndk.certificate.override.x509.pem'')"
  "exists world_apex_core (Path ''com.android.vndk.certificate.override.pk8'')"
  "\<not> exists world_apex_core (Path ''com.android.vndk.avbpubkey'')"
  "\<not> exists world_apex_core (Path ''com.android.vndk.pubkey'')"
  "exists world_apex_avb (Path ''com.android.vndk.pem'')"
  "exists world_apex_avb (Path ''com.android.vndk.certificate.override.x509.pem'')"
  "exists world_apex_avb (Path ''com.android.vndk.certificate.override.pk8'')"
  "exists world_apex_avb (Path ''com.android.vndk.avbpubkey'')"
  "\<not> exists world_apex_avb (Path ''com.android.vndk.pubkey'')"
  "exists world_apex_legacy (Path ''com.android.vndk.pem'')"
  "exists world_apex_legacy (Path ''com.android.vndk.certificate.override.x509.pem'')"
  "exists world_apex_legacy (Path ''com.android.vndk.certificate.override.pk8'')"
  "\<not> exists world_apex_legacy (Path ''com.android.vndk.avbpubkey'')"
  "exists world_apex_legacy (Path ''com.android.vndk.pubkey'')"
  by (simp_all add: exists_def world_apex_core_def world_apex_avb_def world_apex_legacy_def
        world0_def vndk_paths)

theorem apex_key_skip_condition_witness:
  "generate_single_apex_key ''com.android.vndk'' world_apex_avb =
     (Inr (''com.android.vndk.pem'', ''com.android.vndk.certificate.override.x509.pem'',
           ''com.android.vndk.certificate.override.pk8'', ''com.android.vndk.avbpubkey'',
           ''com.android.vndk.pubkey''), world_apex_avb)
   \<and> generate_single_apex_key ''com.android.vndk'' world_apex_legacy =
     (Inr (''com.android.vndk.pem'', ''com.android.vndk.certificate.override.x509.pem'',
           ''com.android.vndk.certificate.override.pk8'', ''com.android.vndk.avbpubkey'',
           ''com.android.vndk.pubkey''), world_apex_legacy)
   \<and> snd (generate_single_apex_key ''com.android.vndk'' world_apex_core) \<noteq> world_apex_core"
proof -
  have 1: "generate_single_apex_key ''com.android.vndk'' world_apex_avb =
     (Inr (''com.android.vndk.pem'', ''com.android.vndk.certificate.override.x509.pem'',
           ''com.android.vndk.certificate.override.pk8'', ''com.android.vndk.avbpubkey'',
           ''com.android.vndk.pubkey''), world_apex_avb)"
    using apex_key_skip_condition [where w = world_apex_avb and apex = "''com.android.vndk''"]
    by (simp add: Let_def vndk_exists vndk_strs)
  have 2: "generate_single_apex_key ''com.android.vndk'' world_apex_legacy =
     (Inr (''com.android.vndk.pem'', ''com.android.vndk.certificate.override.x509.pem'',
           ''com.android.vndk.certificate.override.pk8'', ''com.android.vndk.avbpubkey'',
           ''com.android.vndk.pubkey''), world_apex_legacy)"
    using apex_key_skip_condition [where w = world_apex_legacy and apex = "''com.android.vndk''"]
    by (simp add: Let_def vndk_exists vndk_strs)
  have 3: "snd (generate_single_apex_key ''com.android.vndk'' world_apex_core) \<noteq> world_apex_core"
    using apex_key_skip_condition [where w = world_apex_core and apex = "''com.android.vndk''"]
    by (simp add: Let_def vndk_exists vndk_strs)
  from 1 2 3 show ?thesis by blast
qed

lemma join_snoc: "join sep (xs @ [x]) = (if xs = [] then x else join sep xs @ sep @ x)"
  by (induction sep xs rule: join.induct) auto

lemma str_path_suffix:
  assumes "CHR ''/'' \<notin> set s" "s \<noteq> []" "s \<noteq> ''.''"
  shows "suffix s (str_path (Path (n @ s)))"
proof -
  obtain front where f: "parts (Path (n @ s)) = front @ [basename n @ s]"
    using parts_Path_append [OF assms] by blast
  have "\<exists>u. join ''/'' (front @ [basename n @ s]) = u @ s"
    by (simp add: join_snoc)
  then obtain u where "join ''/'' (parts (Path (n @ s))) = u @ s" using f by auto
  with assms(2) show ?thesis by (simp add: str_path_def Let_def suffix_def)
qed

lemma apex_frame:
  assumes "q \<notin> set (apex_paths apex)"
  shows "files (snd (generate_single_apex_key apex w)) q = files w q"
proof (cases "exists w (Path (apex @ ''.pem'')) \<and> exists w (Path (apex @ ''.certificate.override.x509.pem''))
       \<and> exists w (Path (apex @ ''.certificate.override.pk8''))
       \<and> (exists w (Path (apex @ ''.pubkey'')) \<or> exists w (Path (apex @ ''.avbpubkey'')))")
  case True
  then show ?thesis using apex_skip [of w apex] by auto
next
  case False
  define pub where "pub = (if apex = ''com.android.vndk'' then Path (apex @ ''.pubkey'')
                       else Path (apex @ ''.avbpubkey''))"
  from assms have q: "q \<noteq> Path (apex @ ''.pem'')"
      "q \<noteq> Path (apex @ ''.certificate.override.x509.pem'')"
      "q \<noteq> Path (apex @ ''.certificate.override.pk8'')"
      "q \<noteq> Path (apex @ ''.avbpubkey'')" "q \<noteq> Path (apex @ ''.pubkey'')"
    by (simp_all add: apex_paths_def)
  then have qp: "q \<noteq> pub" unfolding pub_def by (simp only: if_split) blast
  show ?thesis
    unfolding apex_generate [OF False refl refl refl pub_def refl refl refl]
    using q(1-3) qp by simp
qed

lemma apex_other_pubkey_untouched:
  "apex = ''com.android.vndk'' \<Longrightarrow>
     files (snd (generate_single_apex_key apex w)) (Path (apex @ ''.avbpubkey'')) =
       files w (Path (apex @ ''.avbpubkey''))"
  "apex \<noteq> ''com.android.vndk'' \<Longrightarrow>
     files (snd (generate_single_apex_key apex w)) (Path (apex @ ''.pubkey'')) =
       files w (Path (apex @ ''.pubkey''))"
proof -
  have d: "distinct (apex_paths apex)" by (rule apex_paths_distinct)
  then have ne: "Path (apex @ ''.avbpubkey'') \<noteq> Path (apex @ ''.pubkey'')"
      "Path (apex @ ''.avbpubkey'') \<noteq> Path (apex @ ''.pem'')"
      "Path (apex @ ''.avbpubkey'') \<noteq> Path (apex @ ''.certificate.override.x509.pem'')"
      "Path (apex @ ''.avbpubkey'') \<noteq> Path (apex @ ''.certificate.override.pk8'')"
      "Path (apex @ ''.pubkey'') \<noteq> Path (apex @ ''.pem'')"
      "Path (apex @ ''.pubkey'') \<noteq> Path (apex @ ''.certificate.override.x509.pem'')"
      "Path (apex @ ''.pubkey'') \<noteq> Path (apex @ ''.certificate.override.pk8'')"
    by (auto simp: apex_paths_def)
  note ne' = ne ne(1) [symmetric]
  {
    assume v: "apex = ''com.android.vndk''"
    show "files (snd (generate_single_apex_key apex w)) (Path (apex @ ''.avbpubkey'')) =
       files w (Path (apex @ ''.avbpubkey''))"
    proof (cases "exists w (Path (apex @ ''.pem'')) \<and> exists w (Path (apex @ ''.certificate.override.x509.pem''))
       \<and> exists w (Path (apex @ ''.certificate.override.pk8''))
       \<and> (exists w (Path (apex @ ''.pubkey'')) \<or> exists w (Path (apex @ ''.avbpubkey'')))")
      case True
      then show ?thesis using apex_skip [of w apex] by auto
    next
      case False
      show ?thesis
        unfolding apex_generate [OF False refl refl refl refl refl refl refl]
        using v ne' by simp
    qed
  }
  {
    assume v: "apex \<noteq> ''com.android.vndk''"
    show "files (snd (generate_single_apex_key apex w)) (Path (apex @ ''.pubkey'')) =
       files w (Path (apex @ ''.pubkey''))"
    proof (cases "exists w (Path (apex @ ''.pem'')) \<and> exists w (Path (apex @ ''.certificate.override.x509.pem''))
       \<and> exists w (Path (apex @ ''.certificate.override.pk8''))
       \<and> (exists w (Path (apex @ ''.pubkey'')) \<or> exists w (Path (apex @ ''.avbpubkey'')))")
      case True
      then show ?thesis using apex_skip [of w apex] by auto
    next
      case False
      show ?thesis
        unfolding apex_generate [OF False refl refl refl refl refl refl refl]
        using v ne' by simp
    qed
  }
qed

lemma apex_selected_pubkey_written:
  assumes m: "\<not> (exists w (Path (apex @ ''.pem'')) \<and> exists w (Path (apex @ ''.certificate.override.x509.pem''))
       \<and> exists w (Path (apex @ ''.certificate.override.pk8''))
       \<and> (exists w (Path (apex @ ''.pubkey'')) \<or> exists w (Path (apex @ ''.avbpubkey''))))"
      and nd: "Path (apex @ ''.pem'') \<notin> denied w"
      and pub: "pub = (if apex = ''com.android.vndk'' then Path (apex @ ''.pubkey'')
                       else Path (apex @ ''.avbpubkey''))"
      and ndp: "pub \<notin> denied w"
  shows "files (snd (generate_single_apex_key apex w)) pub =
           Some (AvbPublicKey \<lparr>bits = 4096, material = entropy w\<rparr>)"
proof -
  have d: "distinct (apex_paths apex)" by (rule apex_paths_distinct)
  then have ne: "pub \<noteq> Path (apex @ ''.certificate.override.x509.pem'')"
      "pub \<noteq> Path (apex @ ''.certificate.override.pk8'')"
    unfolding pub by (auto simp: apex_paths_def)
  show ?thesis
    unfolding apex_generate [OF m refl refl refl pub refl refl refl]
    using nd ndp ne by simp
qed

section \<open>Where the public key goes\<close>

text \<open>
  C3. When the apex generator gets as far as the extraction (the bundle is incomplete
  and the private key could be written), the output path depends on the name alone: for
  \<open>com.android.vndk\<close> the public key is written to the path with suffix \<open>.pubkey\<close>
  and the \<open>.avbpubkey\<close> path is left as it was; for every other name the public key
  is written to the path with suffix \<open>.avbpubkey\<close> and the \<open>.pubkey\<close> path is left
  as it was.
\<close>

theorem apex_public_key_output_path:
  "\<not> (exists w (Path (apex @ ''.pem'')) \<and> exists w (Path (apex @ ''.certificate.override.x509.pem''))
       \<and> exists w (Path (apex @ ''.certificate.override.pk8''))
       \<and> (exists w (Path (apex @ ''.pubkey'')) \<or> exists w (Path (apex @ ''.avbpubkey'')))) \<Longrightarrow>
   Path (apex @ ''.pem'') \<notin> denied w \<Longrightarrow>
   (let avbpubkey_file = Path (apex @ ''.avbpubkey'');
        pubkey_file = Path (apex @ ''.pubkey'');
        w' = snd (generate_single_apex_key apex w);
        k = \<lparr>bits = RSA_APEX_KEY_SIZE, material = entropy w\<rparr>
    in (apex = ''com.android.vndk'' \<longrightarrow>
          (pubkey_file \<notin> denied w \<longrightarrow> files w' pubkey_file = Some (AvbPublicKey k))
          \<and> files w' avbpubkey_file = files w avbpubkey_file
          \<and> suffix ''.pubkey'' (str_path pubkey_file))
     \<and> (apex \<noteq> ''com.android.vndk'' \<longrightarrow>
          (avbpubkey_file \<notin> denied w \<longrightarrow> files w' avbpubkey_file = Some (AvbPublicKey k))
          \<and> files w' pubkey_file = files w pubkey_file
          \<and> suffix ''.avbpubkey'' (str_path avbpubkey_file)))"
proof -
  assume m: "\<not> (exists w (Path (apex @ ''.pem'')) \<and> exists w (Path (apex @ ''.certificate.override.x509.pem''))
       \<and> exists w (Path (apex @ ''.certificate.override.pk8''))
       \<and> (exists w (Path (apex @ ''.pubkey'')) \<or> exists w (Path (apex @ ''.avbpubkey''))))"
     and nd: "Path (apex @ ''.pem'') \<notin> denied w"
  note sel = apex_selected_pubkey_written [OF m nd refl]
  have s1: "suffix ''.pubkey'' (str_path (Path (apex @ ''.pubkey'')))"
    by (rule str_path_suffix) simp_all
  have s2: "suffix ''.avbpubkey'' (str_path (Path (apex @ ''.avbpubkey'')))"
    by (rule str_path_suffix) simp_all
  have A: "apex = ''com.android.vndk'' \<longrightarrow>
          (Path (apex @ ''.pubkey'') \<notin> denied w \<longrightarrow>
             files (snd (generate_single_apex_key apex w)) (Path (apex @ ''.pubkey'')) =
               Some (AvbPublicKey \<lparr>bits = 4096, material = entropy w\<rparr>))
          \<and> files (snd (generate_single_apex_key apex w)) (Path (apex @ ''.avbpubkey'')) =
              files w (Path (apex @ ''.avbpubkey''))
          \<and> suffix ''.pubkey'' (str_path (Path (apex @ ''.pubkey'')))"
  proof
    assume v: "apex = ''com.android.vndk''"
    have p: "(if apex = ''com.android.vndk'' then Path (apex @ ''.pubkey'')
                       else Path (apex @ ''.avbpubkey'')) = Path (apex @ ''.pubkey'')"
      using v by simp
    from sel [unfolded p] s1 apex_other_pubkey_untouched(1) [OF v, of w]
    show "(Path (apex @ ''.pubkey'') \<notin> denied w \<longrightarrow>
             files (snd (generate_single_apex_key apex w)) (Path (apex @ ''.pubkey'')) =
               Some (AvbPublicKey \<lparr>bits = 4096, material = entropy w\<rparr>))
          \<and> files (snd (generate_single_apex_key apex w)) (Path (apex @ ''.avbpubkey'')) =
              files w (Path (apex @ ''.avbpubkey''))
          \<and> suffix ''.pubkey'' (str_path (Path (apex @ ''.pubkey'')))"
      by blast
  qed
  have B: "apex \<noteq> ''com.android.vndk'' \<longrightarrow>
          (Path (apex @ ''.avbpubkey'') \<notin> denied w \<longrightarrow>
             files (snd (generate_single_apex_key apex w)) (Path (apex @ ''.avbpubkey'')) =
               Some (AvbPublicKey \<lparr>bits = 4096, material = entropy w\<rparr>))
          \<and> files (snd (generate_single_apex_key apex w)) (Path (apex @ ''.pubkey'')) =
              files w (Path (apex @ ''.pubkey''))
          \<and> suffix ''.avbpubkey'' (str_path (Path (apex @ ''.avbpubkey'')))"
  proof
    assume v: "apex \<noteq> ''com.android.vndk''"
    have p: "(if apex = ''com.android.vndk'' then Path (apex @ ''.pubkey'')
                       else Path (apex @ ''.avbpubkey'')) = Path (apex @ ''.avbpubkey'')"
      using v by simp
    from sel [unfolded p] s2 apex_other_pubkey_untouched(2) [OF v, of w]
    show "(Path (apex @ ''.avbpubkey'') \<notin> denied w \<longrightarrow>
             files (snd (generate_single_apex_key apex w)) (Path (apex @ ''.avbpubkey'')) =
               Some (AvbPublicKey \<lparr>bits = 4096, material = entropy w\<rparr>))
          \<and> files (snd (generate_single_apex_key apex w)) (Path (apex @ ''.pubkey'')) =
              files w (Path (apex @ ''.pubkey''))
          \<and> suffix ''.avbpubkey'' (str_path (Path (apex @ ''.avbpubkey'')))"
      by blast
  qed
  from A B show ?thesis unfolding Let_def RSA_APEX_KEY_SIZE_def by blast
qed

lemma world0_simps:
  "exists world0 p = False" "denied world0 = {}" "entropy world0 = 7"
  "clock world0 = 1700000000" "files world0 p = None"
  "ticks world0 = []" "first_reading world0 = 1700000000" "second_reading world0 = 1700000000"
  by (simp_all add: exists_def world0_def first_reading_def second_reading_def)


theorem apex_public_key_output_path_witness:
  "files (snd (generate_single_apex_key ''com.android.vndk'' world0))
      (Path ''com.android.vndk.pubkey'') = Some (AvbPublicKey \<lparr>bits = 4096, material = 7\<rparr>)
   \<and> files (snd (generate_single_apex_key ''com.android.vndk'' world0))
      (Path ''com.android.vndk.avbpubkey'') = None
   \<and> suffix ''.pubkey'' (str_path (Path ''com.android.vndk.pubkey''))
   \<and> files (snd (generate_single_apex_key ''com.android.adbd'' world0))
      (Path ''com.android.adbd.avbpubkey'') = Some (AvbPublicKey \<lparr>bits = 4096, material = 7\<rparr>)
   \<and> files (snd (generate_single_apex_key ''com.android.adbd'' world0))
      (Path ''com.android.adbd.pubkey'') = None
   \<and> suffix ''.avbpubkey'' (str_path (Path ''com.android.adbd.avbpubkey''))"
proof -
  have 1: "files (snd (generate_single_apex_key ''com.android.vndk'' world0))
      (Path ''com.android.vndk.pubkey'') = Some (AvbPublicKey \<lparr>bits = 4096, material = 7\<rparr>)
   \<and> files (snd (generate_single_apex_key ''com.android.vndk'' world0))
      (Path ''com.android.vndk.avbpubkey'') = None
   \<and> suffix ''.pubkey'' (str_path (Path ''com.android.vndk.pubkey''))"
    using apex_public_key_output_path [where w = world0 and apex = "''com.android.vndk''"]
    by (simp add: Let_def world0_simps RSA_APEX_KEY_SIZE_def)
  have 2: "files (snd (generate_single_apex_key ''com.android.adbd'' world0))
      (Path ''com.android.adbd.avbpubkey'') = Some (AvbPublicKey \<lparr>bits = 4096, material = 7\<rparr>)
   \<and> files (snd (generate_single_apex_key ''com.android.adbd'' world0))
      (Path ''com.android.adbd.pubkey'') = None
   \<and> suffix ''.avbpubkey'' (str_path (Path ''com.android.adbd.avbpubkey''))"
    using apex_public_key_output_path [where w = world0 and apex = "''com.android.adbd''"]
    by (simp add: Let_def world0_simps RSA_APEX_KEY_SIZE_def)
  from 1 2 show ?thesis by blast
qed





section \<open>The shape of a certificate\<close>





section \<open>Where the artifacts are written\<close>

lemma Path_plain_suffix:
  assumes "plain n" "CHR ''/'' \<notin> set s" "2 \<le> length s"
  shows "Path (n @ s) = \<lparr>anchor = [], parts = [n @ s]\<rparr>"
proof (rule Path_plain)
  show "CHR ''/'' \<notin> set (n @ s)" using assms by (simp add: plain_def)
  show "n @ s \<noteq> []" using assms(3) by auto
  show "n @ s \<noteq> ''.''"
  proof
    assume "n @ s = ''.''"
    then have "length (n @ s) = 1" by simp
    with assms(3) show False by simp
  qed
qed

lemma in_cwd_plain:
  assumes "plain n" "CHR ''/'' \<notin> set s" "2 \<le> length s"
  shows "in_cwd (Path (n @ s))"
  by (simp add: Path_plain_suffix [OF assms] in_cwd_def)

lemma under_CERTS_PATH:
  assumes "plain n" "CHR ''/'' \<notin> set s" "2 \<le> length s"
  shows "under_dir (CERTS_PATH home) (joinpath (CERTS_PATH home) (n @ s))"
  by (simp add: Path_plain_suffix [OF assms] joinpath_def under_dir_def Let_def strict_prefix_def)

lemma in_cwd_not_under: "in_cwd p \<Longrightarrow> \<not> under_dir (CERTS_PATH home) p"
proof
  assume a: "in_cwd p" and u: "under_dir (CERTS_PATH home) p"
  from u have "length (parts (CERTS_PATH home)) < length (parts p)"
    by (auto simp: under_dir_def strict_prefix_def prefix_def)
  moreover have "1 \<le> length (parts (CERTS_PATH home))" by (simp add: CERTS_PATH_def Let_def)
  ultimately show False using a by (simp add: in_cwd_def)
qed

lemma platform_frame:
  assumes "q \<notin> set (platform_paths certs cert)"
  shows "files (snd (generate_single_platform_key certs cert w)) q = files w q"
proof (cases "exists w (joinpath certs (cert @ ''.pem'')) \<and> exists w (Path (cert @ ''.x509.pem''))
                 \<and> exists w (Path (cert @ ''.pk8''))")
  case True
  then show ?thesis using platform_skip [of w certs cert] by auto
next
  case False
  from assms have q: "q \<noteq> joinpath certs (cert @ ''.pem'')"
      "q \<noteq> Path (cert @ ''.x509.pem'')" "q \<noteq> Path (cert @ ''.pk8'')"
    by (simp_all add: platform_paths_def)
  show ?thesis
    unfolding platform_generate [OF False refl refl refl refl refl refl]
    using q by simp
qed

lemma emitter_frame:
  "q \<noteq> Path ''Android.bp'' \<Longrightarrow> files (snd (generate_android_bp keys w)) q = files w q"
  "q \<noteq> Path ''keys.mk'' \<Longrightarrow> files (snd (generate_makefile keys w)) q = files w q"
  by (simp_all add: generate_android_bp_def generate_makefile_def write_bytes_def Let_def)

lemma config_in_cwd: "in_cwd (Path ''Android.bp'')" "in_cwd (Path ''keys.mk'')"
  by (simp_all add: in_cwd_def Path_def splitroot_def)

lemma platform_key_written:
  assumes m: "\<not> (exists w (joinpath certs (cert @ ''.pem'')) \<and> exists w (Path (cert @ ''.x509.pem''))
                 \<and> exists w (Path (cert @ ''.pk8'')))"
      and nd: "joinpath certs (cert @ ''.pem'') \<notin> denied w"
  shows "files (snd (generate_single_platform_key certs cert w)) (joinpath certs (cert @ ''.pem'')) =
           Some (PrivateKeyPEM \<lparr>bits = 4096, material = entropy w\<rparr>)"
proof -
  have ne: "joinpath certs (cert @ ''.pem'') \<noteq> Path (cert @ ''.x509.pem'')"
           "joinpath certs (cert @ ''.pem'') \<noteq> Path (cert @ ''.pk8'')"
    using platform_paths_distinct [of certs cert] by (simp_all add: platform_paths_def)
  show ?thesis
    unfolding platform_generate [OF m refl refl refl refl refl refl]
    using nd ne by simp
qed

lemma apex_key_written:
  assumes m: "\<not> (exists w (Path (apex @ ''.pem'')) \<and> exists w (Path (apex @ ''.certificate.override.x509.pem''))
       \<and> exists w (Path (apex @ ''.certificate.override.pk8''))
       \<and> (exists w (Path (apex @ ''.pubkey'')) \<or> exists w (Path (apex @ ''.avbpubkey''))))"
      and nd: "Path (apex @ ''.pem'') \<notin> denied w"
  shows "files (snd (generate_single_apex_key apex w)) (Path (apex @ ''.pem'')) =
           Some (PrivateKeyPEM \<lparr>bits = 4096, material = entropy w\<rparr>)"
proof -
  define pub where "pub = (if apex = ''com.android.vndk'' then Path (apex @ ''.pubkey'')
                       else Path (apex @ ''.avbpubkey''))"
  have d: "distinct (apex_paths apex)" by (rule apex_paths_distinct)
  then have ne: "Path (apex @ ''.pem'') \<noteq> Path (apex @ ''.certificate.override.x509.pem'')"
      "Path (apex @ ''.pem'') \<noteq> Path (apex @ ''.certificate.override.pk8'')"
      "Path (apex @ ''.pem'') \<noteq> Path (apex @ ''.pubkey'')"
      "Path (apex @ ''.pem'') \<noteq> Path (apex @ ''.avbpubkey'')"
    by (auto simp: apex_paths_def)
  then have np: "Path (apex @ ''.pem'') \<noteq> pub" unfolding pub_def by (simp only: if_split) blast
  show ?thesis
    unfolding apex_generate [OF m refl refl refl pub_def refl refl refl]
    using nd ne(1,2) np by simp
qed


lemma apex_paths_in_cwd: "plain apex \<Longrightarrow> list_all in_cwd (apex_paths apex)"
  by (simp add: apex_paths_def in_cwd_plain)

text \<open>
  C8, as amended. For names with no separator: the private-key PEM of a platform entry
  is written under the root directory \<open>CERTS_PATH\<close>; the private-key PEM of an apex
  entry is written in the current working directory, as are the certificates, the PKCS8
  files, the public keys and the two configuration files. A path in the current working
  directory is never under \<open>CERTS_PATH\<close>, and the generators and emitters write
  nowhere else.
\<close>

theorem artifact_locations:
  "plain cert \<Longrightarrow> plain apex \<Longrightarrow>
     under_dir (CERTS_PATH home) (joinpath (CERTS_PATH home) (cert @ ''.pem''))
   \<and> in_cwd (Path (cert @ ''.x509.pem'')) \<and> in_cwd (Path (cert @ ''.pk8''))
   \<and> list_all in_cwd (apex_paths apex)
   \<and> in_cwd (Path ''Android.bp'') \<and> in_cwd (Path ''keys.mk'')
   \<and> (\<forall>p. in_cwd p \<longrightarrow> \<not> under_dir (CERTS_PATH home) p)
   \<and> (\<forall>p. files (snd (generate_single_platform_key (CERTS_PATH home) cert w)) p \<noteq> files w p
          \<longrightarrow> p \<in> set (platform_paths (CERTS_PATH home) cert))
   \<and> (\<forall>p. files (snd (generate_single_apex_key apex w)) p \<noteq> files w p
          \<longrightarrow> p \<in> set (apex_paths apex))
   \<and> (\<forall>p. files (snd (generate_android_bp keys w)) p \<noteq> files w p \<longrightarrow> p = Path ''Android.bp'')
   \<and> (\<forall>p. files (snd (generate_makefile keys w)) p \<noteq> files w p \<longrightarrow> p = Path ''keys.mk'')
   \<and> (\<not> (exists w (joinpath (CERTS_PATH home) (cert @ ''.pem''))
            \<and> exists w (Path (cert @ ''.x509.pem'')) \<and> exists w (Path (cert @ ''.pk8'')))
        \<and> joinpath (CERTS_PATH home) (cert @ ''.pem'') \<notin> denied w \<longrightarrow>
        files (snd (generate_single_platform_key (CERTS_PATH home) cert w))
          (joinpath (CERTS_PATH home) (cert @ ''.pem'')) =
            Some (PrivateKeyPEM \<lparr>bits = RSA_PLATFORM_KEY_SIZE, material = entropy w\<rparr>))
   \<and> (\<not> (exists w (Path (apex @ ''.pem''))
            \<and> exists w (Path (apex @ ''.certificate.override.x509.pem''))
            \<and> exists w (Path (apex @ ''.certificate.override.pk8''))
            \<and> (exists w (Path (apex @ ''.pubkey'')) \<or> exists w (Path (apex @ ''.avbpubkey''))))
        \<and> Path (apex @ ''.pem'') \<notin> denied w \<longrightarrow>
        files (snd (generate_single_apex_key apex w)) (Path (apex @ ''.pem'')) =
            Some (PrivateKeyPEM \<lparr>bits = RSA_APEX_KEY_SIZE, material = entropy w\<rparr>))"
proof -
  assume pc: "plain cert" and pa: "plain apex"
  have 1: "under_dir (CERTS_PATH home) (joinpath (CERTS_PATH home) (cert @ ''.pem''))"
    by (rule under_CERTS_PATH [OF pc]) simp_all
  have 2: "in_cwd (Path (cert @ ''.x509.pem''))" "in_cwd (Path (cert @ ''.pk8''))"
    by (rule in_cwd_plain [OF pc], simp, simp)+
  have 3: "list_all in_cwd (apex_paths apex)" by (rule apex_paths_in_cwd [OF pa])
  have 4: "\<forall>p. in_cwd p \<longrightarrow> \<not> under_dir (CERTS_PATH home) p"
    using in_cwd_not_under by blast
  have 5: "\<forall>p. files (snd (generate_single_platform_key (CERTS_PATH home) cert w)) p \<noteq> files w p
          \<longrightarrow> p \<in> set (platform_paths (CERTS_PATH home) cert)"
    using platform_frame by blast
  have 6: "\<forall>p. files (snd (generate_single_apex_key apex w)) p \<noteq> files w p
          \<longrightarrow> p \<in> set (apex_paths apex)"
    using apex_frame by blast
  have 7: "\<forall>p. files (snd (generate_android_bp keys w)) p \<noteq> files w p \<longrightarrow> p = Path ''Android.bp''"
          "\<forall>p. files (snd (generate_makefile keys w)) p \<noteq> files w p \<longrightarrow> p = Path ''keys.mk''"
    using emitter_frame by blast+
  have 8: "\<not> (exists w (joinpath (CERTS_PATH home) (cert @ ''.pem''))
            \<and> exists w (Path (cert @ ''.x509.pem'')) \<and> exists w (Path (cert @ ''.pk8'')))
        \<and> joinpath (CERTS_PATH home) (cert @ ''.pem'') \<notin> denied w \<longrightarrow>
        files (snd (generate_single_platform_key (CERTS_PATH home) cert w))
          (joinpath (CERTS_PATH home) (cert @ ''.pem'')) =
            Some (PrivateKeyPEM \<lparr>bits = RSA_PLATFORM_KEY_SIZE, material = entropy w\<rparr>)"
    using platform_key_written [of w "CERTS_PATH home" cert]
    by (simp add: RSA_PLATFORM_KEY_SIZE_def)
  have 9: "\<not> (exists w (Path (apex @ ''.pem''))
            \<and> exists w (Path (apex @ ''.certificate.override.x509.pem''))
            \<and> exists w (Path (apex @ ''.certificate.override.pk8''))
            \<and> (exists w (Path (apex @ ''.pubkey'')) \<or> exists w (Path (apex @ ''.avbpubkey''))))
        \<and> Path (apex @ ''.pem'') \<notin> denied w \<longrightarrow>
        files (snd (generate_single_apex_key apex w)) (Path (apex @ ''.pem'')) =
            Some (PrivateKeyPEM \<lparr>bits = RSA_APEX_KEY_SIZE, material = entropy w\<rparr>)"
    using apex_key_written [of w apex]
    by (simp add: RSA_APEX_KEY_SIZE_def)
  from 1 2 3 config_in_cwd 4 5 6 7 8 9 show ?thesis by blast
qed

theorem artifact_locations_witness:
  "plain ''releasekey'' \<and> plain ''com.android.adbd''
   \<and> under_dir (CERTS_PATH ''/home/u'') (joinpath (CERTS_PATH ''/home/u'') ''releasekey.pem'')
   \<and> files (snd (generate_single_platform_key (CERTS_PATH ''/home/u'') ''releasekey'' world0))
        (joinpath (CERTS_PATH ''/home/u'') ''releasekey.pem'') =
          Some (PrivateKeyPEM \<lparr>bits = 4096, material = 7\<rparr>)
   \<and> in_cwd (Path ''releasekey.x509.pem'')
   \<and> files (snd (generate_single_apex_key ''com.android.adbd'' world0))
        (Path ''com.android.adbd.pem'') = Some (PrivateKeyPEM \<lparr>bits = 4096, material = 7\<rparr>)
   \<and> list_all in_cwd (apex_paths ''com.android.adbd'')"
proof -
  have p: "plain ''releasekey''" "plain ''com.android.adbd''" by (simp_all add: plain_def)
  show ?thesis
    using p artifact_locations [OF p, where w = world0 and home = "''/home/u''"]
    by (simp add: world0_simps RSA_PLATFORM_KEY_SIZE_def RSA_APEX_KEY_SIZE_def)
qed

text \<open>
  C8 as stated fails for every apex entry: run on the empty world, the apex generator
  puts the private key of \<open>com.android.adbd\<close> at \<open>com.android.adbd.pem\<close>, which is
  not under \<open>CERTS_PATH\<close>, and writes nothing under \<open>CERTS_PATH\<close>.
\<close>

theorem apex_private_key_counterexample:
  "files (snd (generate_single_apex_key ''com.android.adbd'' world0))
      (Path ''com.android.adbd.pem'') = Some (PrivateKeyPEM \<lparr>bits = 4096, material = 7\<rparr>)
   \<and> \<not> under_dir (CERTS_PATH ''/home/u'') (Path ''com.android.adbd.pem'')
   \<and> \<not> (\<exists>p. under_dir (CERTS_PATH ''/home/u'') p
            \<and> files (snd (generate_single_apex_key ''com.android.adbd'' world0)) p \<noteq> None)"
proof -
  have p: "plain ''com.android.adbd''" by (simp add: plain_def)
  have 1: "files (snd (generate_single_apex_key ''com.android.adbd'' world0))
      (Path ''com.android.adbd.pem'') = Some (PrivateKeyPEM \<lparr>bits = 4096, material = 7\<rparr>)"
    using apex_key_written [where w = world0 and apex = "''com.android.adbd''"]
    by (simp add: world0_simps)
  have c: "list_all in_cwd (apex_paths ''com.android.adbd'')" by (rule apex_paths_in_cwd [OF p])
  then have "in_cwd (Path (''com.android.adbd'' @ ''.pem''))" by (simp add: apex_paths_def)
  then have 2: "\<not> under_dir (CERTS_PATH ''/home/u'') (Path ''com.android.adbd.pem'')"
    using in_cwd_not_under by simp
  have 3: "\<not> (\<exists>p. under_dir (CERTS_PATH ''/home/u'') p
            \<and> files (snd (generate_single_apex_key ''com.android.adbd'' world0)) p \<noteq> None)"
  proof
    assume "\<exists>p. under_dir (CERTS_PATH ''/home/u'') p
            \<and> files (snd (generate_single_apex_key ''com.android.adbd'' world0)) p \<noteq> None"
    then obtain q where u: "under_dir (CERTS_PATH ''/home/u'') q"
      and f: "files (snd (generate_single_apex_key ''com.android.adbd'' world0)) q \<noteq> None"
      by blast
    from u have "\<not> in_cwd q" using in_cwd_not_under by blast
    with c have "q \<notin> set (apex_paths ''com.android.adbd'')"
      by (auto simp: list_all_iff)
    then have "files (snd (generate_single_apex_key ''com.android.adbd'' world0)) q = files world0 q"
      by (rule apex_frame)
    with f show False by (simp add: world0_simps)
  qed
  from 1 2 3 show ?thesis by blast
qed


section \<open>Disjointness of the output paths\<close>

lemma append_eq_cut:
  assumes "n @ s1 = m @ s2" "length s1 \<le> length s2"
  shows "n = m @ take (length s2 - length s1) s2 \<and> s1 = drop (length s2 - length s1) s2"
proof -
  let ?k = "length s2 - length s1"
  have a: "n @ s1 = (m @ take ?k s2) @ drop ?k s2" using assms(1) by simp
  have b: "length s1 = length (drop ?k s2)" using assms(2) by simp
  from a b show ?thesis using append_eq_append_conv [where xs = n and ys = "m @ take ?k s2" and us = s1 and vs = "drop ?k s2"]
    by blast
qed

lemma safe_nameD:
  "safe_name (m @ ''.x509'') \<Longrightarrow> False"
  "safe_name (m @ ''.certificate.override'') \<Longrightarrow> False"
  "safe_name (m @ ''.certificate.override.x509'') \<Longrightarrow> False"
proof -
  show "safe_name (m @ ''.x509'') \<Longrightarrow> False" by (simp add: safe_name_def suffix_def)
  show "safe_name (m @ ''.certificate.override'') \<Longrightarrow> False"
    by (simp add: safe_name_def suffix_def)
  have "suffix ''.x509'' ((m @ ''.certificate.override'') @ ''.x509'')"
    by (rule suffixI) simp
  then show "safe_name (m @ ''.certificate.override.x509'') \<Longrightarrow> False"
    by (simp add: safe_name_def)
qed

lemma suffix_table_closed:
  "list_all (\<lambda>(s1, s2). \<not> suffix s1 s2 \<or> s1 = s2 \<or> (s1, s2) \<in> set suffix_clashes)
     (List.product cwd_suffixes cwd_suffixes)"
  by code_simp

lemma suffix_table:
  assumes "s1 \<in> set cwd_suffixes" "s2 \<in> set cwd_suffixes" "suffix s1 s2"
  shows "s1 = s2 \<or> (s1, s2) \<in> set suffix_clashes"
proof -
  from assms(1,2) have "(s1, s2) \<in> set (List.product cwd_suffixes cwd_suffixes)" by simp
  with suffix_table_closed have "\<not> suffix s1 s2 \<or> s1 = s2 \<or> (s1, s2) \<in> set suffix_clashes"
    unfolding list_all_iff by blast
  with assms(3) show ?thesis by blast
qed

lemma suffix_clashesD:
  "(s1, s2) \<in> set suffix_clashes \<Longrightarrow>
     s2 = ''.x509'' @ s1 \<or> s2 = ''.certificate.override.x509'' @ s1
     \<or> s2 = ''.certificate.override'' @ s1"
  by (auto simp: suffix_clashes_def)

lemma suffix_clash_le:
  assumes e: "n @ s1 = m @ s2" and l: "length s1 \<le> length s2"
      and s1: "s1 \<in> set cwd_suffixes" and s2: "s2 \<in> set cwd_suffixes"
      and n: "safe_name n"
  shows "n = m \<and> s1 = s2"
proof -
  define t where "t = take (length s2 - length s1) s2"
  from append_eq_cut [OF e l]
  have c: "n = m @ t" "s1 = drop (length s2 - length s1) s2"
    by (simp_all add: t_def)
  have s2t: "s2 = t @ s1" unfolding t_def using c(2) by (metis append_take_drop_id)
  then have "suffix s1 s2" by (simp add: suffix_def)
  from suffix_table [OF s1 s2 this] suffix_clashesD [of s1 s2] consider
      "s1 = s2"
    | "s2 = ''.x509'' @ s1"
    | "s2 = ''.certificate.override.x509'' @ s1"
    | "s2 = ''.certificate.override'' @ s1"
    by blast
  then show ?thesis
  proof cases
    case 1
    with s2t have "t = []" by simp
    with c(1) 1 show ?thesis by simp
  next
    case 2
    with s2t have "t @ s1 = ''.x509'' @ s1" by (simp only:)
    then have "t = ''.x509''" by (rule append_same_eq [THEN iffD1])
    with c(1) n show ?thesis using safe_nameD(1) by blast
  next
    case 3
    with s2t have "t @ s1 = ''.certificate.override.x509'' @ s1" by (simp only:)
    then have "t = ''.certificate.override.x509''" by (rule append_same_eq [THEN iffD1])
    with c(1) n show ?thesis using safe_nameD(3) by blast
  next
    case 4
    with s2t have "t @ s1 = ''.certificate.override'' @ s1" by (simp only:)
    then have "t = ''.certificate.override''" by (rule append_same_eq [THEN iffD1])
    with c(1) n show ?thesis using safe_nameD(2) by blast
  qed
qed

lemma suffix_clash:
  assumes e: "n @ s1 = m @ s2"
      and s1: "s1 \<in> set cwd_suffixes" and s2: "s2 \<in> set cwd_suffixes"
      and n: "safe_name n" and m: "safe_name m"
  shows "n = m \<and> s1 = s2"
proof (cases "length s1 \<le> length s2")
  case True
  then show ?thesis using suffix_clash_le [OF e _ s1 s2 n] by simp
next
  case False
  then have "length s2 \<le> length s1" by simp
  then show ?thesis using suffix_clash_le [OF e [symmetric] _ s2 s1 m] by simp
qed


lemma task_suffixes_cwd: "s \<in> set (task_suffixes t) \<Longrightarrow> s \<in> set cwd_suffixes"
  by (cases t) (auto simp: task_suffixes_def cwd_suffixes_def)

lemma task_suffixes_family:
  "s \<in> set (task_suffixes (PlatformTask n)) \<Longrightarrow> s \<in> set (task_suffixes (ApexTask m)) \<Longrightarrow> False"
  by (auto simp: task_suffixes_def)

lemma task_suffixes_same:
  "task_suffixes (PlatformTask n) = task_suffixes (PlatformTask m)"
  "task_suffixes (ApexTask n) = task_suffixes (ApexTask m)"
  by (simp_all add: task_suffixes_def)

lemma task_path_cases:
  assumes n: "safe_name (task_name t)" and p: "p \<in> set (task_paths (CERTS_PATH home) t)"
  shows "(\<exists>s \<in> set (task_suffixes t). p = \<lparr>anchor = [], parts = [task_name t @ s]\<rparr>)
       \<or> (\<exists>cert. t = PlatformTask cert \<and> 2 \<le> length (parts p)
                  \<and> last (parts p) = cert @ ''.pem'')"
proof (cases t)
  case (PlatformTask cert)
  with n have pl: "plain cert" by (simp add: task_name_def safe_name_def)
  have k: "joinpath (CERTS_PATH home) (cert @ ''.pem'') =
             \<lparr>anchor = anchor (CERTS_PATH home), parts = parts (CERTS_PATH home) @ [cert @ ''.pem'']\<rparr>"
    by (simp add: Path_plain_suffix [OF pl] joinpath_def Let_def)
  have l: "1 \<le> length (parts (CERTS_PATH home))" by (simp add: CERTS_PATH_def Let_def)
  from p PlatformTask consider "p = joinpath (CERTS_PATH home) (cert @ ''.pem'')"
    | "p = Path (cert @ ''.x509.pem'')" | "p = Path (cert @ ''.pk8'')"
    by (auto simp: task_paths_def platform_paths_def)
  then show ?thesis
  proof cases
    case 1
    with k l PlatformTask show ?thesis by simp
  next
    case 2
    then show ?thesis using PlatformTask
      by (simp add: Path_plain_suffix [OF pl] task_suffixes_def task_name_def)
  next
    case 3
    then show ?thesis using PlatformTask
      by (simp add: Path_plain_suffix [OF pl] task_suffixes_def task_name_def)
  qed
next
  case (ApexTask apex)
  with n have pl: "plain apex" by (simp add: task_name_def safe_name_def)
  from p ApexTask have "p \<in> set (apex_paths apex)" by (simp add: task_paths_def)
  then show ?thesis using ApexTask
    by (auto simp: apex_paths_def Path_plain_suffix [OF pl] task_suffixes_def task_name_def)
qed

lemma resolve_joinpath:
  assumes "plain x" "x \<noteq> []" "x \<noteq> ''.''"
  shows "resolve cwd (joinpath c x) =
           \<lparr>anchor = anchor (resolve cwd c), parts = parts (resolve cwd c) @ [x]\<rparr>"
proof -
  have "Path x = \<lparr>anchor = [], parts = [x]\<rparr>"
    using assms by (intro Path_plain) (simp_all add: plain_def)
  then show ?thesis by (simp add: resolve_def joinpath_def Let_def)
qed

lemma resolved_task_path_cases:
  assumes n: "safe_name (task_name t)"
      and q: "q \<in> set (map (resolve cwd) (task_paths (CERTS_PATH home) t))"
  shows "(\<exists>s \<in> set (task_suffixes t).
            q = \<lparr>anchor = anchor cwd, parts = parts cwd @ [task_name t @ s]\<rparr>)
       \<or> (\<exists>cert. t = PlatformTask cert
             \<and> q = \<lparr>anchor = anchor (resolve cwd (CERTS_PATH home)),
                    parts = parts (resolve cwd (CERTS_PATH home)) @ [cert @ ''.pem'']\<rparr>)"
proof -
  from q obtain p where p: "p \<in> set (task_paths (CERTS_PATH home) t)" and qp: "q = resolve cwd p"
    by auto
  from task_path_cases [OF n p] show ?thesis
  proof
    assume "\<exists>s \<in> set (task_suffixes t). p = \<lparr>anchor = [], parts = [task_name t @ s]\<rparr>"
    then obtain s where "s \<in> set (task_suffixes t)" "p = \<lparr>anchor = [], parts = [task_name t @ s]\<rparr>"
      by blast
    with qp show ?thesis by (auto simp add: resolve_def)
  next
    assume "\<exists>cert. t = PlatformTask cert \<and> 2 \<le> length (parts p) \<and> last (parts p) = cert @ ''.pem''"
    then obtain cert where t: "t = PlatformTask cert" and l: "2 \<le> length (parts p)" by blast
    from n t have pl: "plain cert" by (simp add: task_name_def safe_name_def)
    have x: "plain (cert @ ''.pem'')" "cert @ ''.pem'' \<noteq> []" "cert @ ''.pem'' \<noteq> ''.''"
      using pl by (simp_all add: plain_def)
    from p t consider "p = joinpath (CERTS_PATH home) (cert @ ''.pem'')"
      | "p = Path (cert @ ''.x509.pem'')" | "p = Path (cert @ ''.pk8'')"
      by (auto simp: task_paths_def platform_paths_def)
    then show ?thesis
    proof cases
      case 1
      with qp t resolve_joinpath [OF x] show ?thesis by simp
    next
      case 2
      with l show ?thesis by (simp add: Path_plain_suffix [OF pl])
    next
      case 3
      with l show ?thesis by (simp add: Path_plain_suffix [OF pl])
    qed
  qed
qed

text \<open>
  C7, as amended. For every two distinct catalog entries (of one family or of both)
  whose names have no separator and do not end in \<open>.x509\<close> or
  \<open>.certificate.override\<close>, and for every working directory that is not the root
  directory of the keys, the sets of files that the output paths derived from their
  names name are disjoint.
\<close>

theorem safe_names_disjoint_outputs:
  "safe_name (task_name t1) \<Longrightarrow> safe_name (task_name t2) \<Longrightarrow> t1 \<noteq> t2 \<Longrightarrow>
   resolve cwd (CERTS_PATH home) \<noteq> cwd \<Longrightarrow>
     set (map (resolve cwd) (task_paths (CERTS_PATH home) t1))
       \<inter> set (map (resolve cwd) (task_paths (CERTS_PATH home) t2)) = {}"
proof (rule ccontr)
  let ?R = "resolve cwd (CERTS_PATH home)"
  assume n1: "safe_name (task_name t1)" and n2: "safe_name (task_name t2)" and ne: "t1 \<noteq> t2"
     and wd: "?R \<noteq> cwd"
     and "set (map (resolve cwd) (task_paths (CERTS_PATH home) t1))
            \<inter> set (map (resolve cwd) (task_paths (CERTS_PATH home) t2)) \<noteq> {}"
  then obtain q where q1: "q \<in> set (map (resolve cwd) (task_paths (CERTS_PATH home) t1))"
      and q2: "q \<in> set (map (resolve cwd) (task_paths (CERTS_PATH home) t2))" by blast
  have key_not_cwd: False
    if "q = \<lparr>anchor = anchor cwd, parts = parts cwd @ [x]\<rparr>"
       "q = \<lparr>anchor = anchor ?R, parts = parts ?R @ [y]\<rparr>" for x y
  proof -
    from that have "anchor ?R = anchor cwd" "parts ?R = parts cwd" by simp_all
    then have "?R = cwd" by simp
    with wd show False by simp
  qed
  from resolved_task_path_cases [OF n1 q1] show False
  proof
    assume "\<exists>s \<in> set (task_suffixes t1).
              q = \<lparr>anchor = anchor cwd, parts = parts cwd @ [task_name t1 @ s]\<rparr>"
    then obtain s1 where s1: "s1 \<in> set (task_suffixes t1)"
        "q = \<lparr>anchor = anchor cwd, parts = parts cwd @ [task_name t1 @ s1]\<rparr>" by blast
    from resolved_task_path_cases [OF n2 q2] show False
    proof
      assume "\<exists>s \<in> set (task_suffixes t2).
                q = \<lparr>anchor = anchor cwd, parts = parts cwd @ [task_name t2 @ s]\<rparr>"
      then obtain s2 where s2: "s2 \<in> set (task_suffixes t2)"
          "q = \<lparr>anchor = anchor cwd, parts = parts cwd @ [task_name t2 @ s2]\<rparr>" by blast
      from s1(2) s2(2) have e: "task_name t1 @ s1 = task_name t2 @ s2" by simp
      from suffix_clash [OF e task_suffixes_cwd [OF s1(1)] task_suffixes_cwd [OF s2(1)] n1 n2]
      have eq: "task_name t1 = task_name t2" "s1 = s2" by simp_all
      show False
      proof (cases t1)
        case a: (PlatformTask a)
        show ?thesis
        proof (cases t2)
          case (PlatformTask b)
          with a eq(1) ne show ?thesis by (simp add: task_name_def)
        next
          case (ApexTask b)
          with a s1(1) s2(1) eq(2) show ?thesis using task_suffixes_family by blast
        qed
      next
        case a: (ApexTask a)
        show ?thesis
        proof (cases t2)
          case (PlatformTask b)
          with a s1(1) s2(1) eq(2) show ?thesis using task_suffixes_family by blast
        next
          case (ApexTask b)
          with a eq(1) ne show ?thesis by (simp add: task_name_def)
        qed
      qed
    next
      assume "\<exists>cert. t2 = PlatformTask cert
             \<and> q = \<lparr>anchor = anchor ?R, parts = parts ?R @ [cert @ ''.pem'']\<rparr>"
      then obtain cert where "q = \<lparr>anchor = anchor ?R, parts = parts ?R @ [cert @ ''.pem'']\<rparr>"
        by blast
      with s1(2) show False by (rule key_not_cwd)
    qed
  next
    assume "\<exists>cert. t1 = PlatformTask cert
             \<and> q = \<lparr>anchor = anchor ?R, parts = parts ?R @ [cert @ ''.pem'']\<rparr>"
    then obtain cert1 where k1: "t1 = PlatformTask cert1"
        "q = \<lparr>anchor = anchor ?R, parts = parts ?R @ [cert1 @ ''.pem'']\<rparr>" by blast
    from resolved_task_path_cases [OF n2 q2] show False
    proof
      assume "\<exists>s \<in> set (task_suffixes t2).
                q = \<lparr>anchor = anchor cwd, parts = parts cwd @ [task_name t2 @ s]\<rparr>"
      then obtain s2 where
          "q = \<lparr>anchor = anchor cwd, parts = parts cwd @ [task_name t2 @ s2]\<rparr>" by blast
      from this k1(2) show False by (rule key_not_cwd)
    next
      assume "\<exists>cert. t2 = PlatformTask cert
             \<and> q = \<lparr>anchor = anchor ?R, parts = parts ?R @ [cert @ ''.pem'']\<rparr>"
      then obtain cert2 where k2: "t2 = PlatformTask cert2"
          "q = \<lparr>anchor = anchor ?R, parts = parts ?R @ [cert2 @ ''.pem'']\<rparr>" by blast
      from k1(2) k2(2) have "cert1 = cert2" by simp
      with k1(1) k2(1) ne show False by simp
    qed
  qed
qed

theorem safe_names_disjoint_outputs_witness:
  "safe_name (task_name (PlatformTask ''releasekey''))
   \<and> safe_name (task_name (ApexTask ''com.android.adbd''))
   \<and> resolve \<lparr>anchor = ''/'', parts = [''home'', ''u'', ''build'']\<rparr> (CERTS_PATH ''/home/u'')
        \<noteq> \<lparr>anchor = ''/'', parts = [''home'', ''u'', ''build'']\<rparr>
   \<and> set (map (resolve \<lparr>anchor = ''/'', parts = [''home'', ''u'', ''build'']\<rparr>)
            (task_paths (CERTS_PATH ''/home/u'') (PlatformTask ''releasekey'')))
       \<inter> set (map (resolve \<lparr>anchor = ''/'', parts = [''home'', ''u'', ''build'']\<rparr>)
            (task_paths (CERTS_PATH ''/home/u'') (ApexTask ''releasekey''))) = {}
   \<and> set (map (resolve \<lparr>anchor = ''/'', parts = [''home'', ''u'', ''build'']\<rparr>)
            (task_paths (CERTS_PATH ''/home/u'') (ApexTask ''releasekey'')))
       \<inter> set (map (resolve \<lparr>anchor = ''/'', parts = [''home'', ''u'', ''build'']\<rparr>)
            (task_paths (CERTS_PATH ''/home/u'') (ApexTask ''com.android.adbd''))) = {}"
proof -
  have 1: "safe_name (task_name (PlatformTask ''releasekey''))"
          "safe_name (task_name (ApexTask ''releasekey''))"
    by (simp_all add: task_name_def safe_name_def plain_def suffix_to_prefix)
  have 2: "safe_name (task_name (ApexTask ''com.android.adbd''))"
    by (simp add: task_name_def safe_name_def plain_def suffix_to_prefix)
  have 3: "PlatformTask ''releasekey'' \<noteq> ApexTask ''releasekey''"
          "ApexTask ''releasekey'' \<noteq> ApexTask ''com.android.adbd''"
    by simp_all
  have 4: "resolve \<lparr>anchor = ''/'', parts = [''home'', ''u'', ''build'']\<rparr> (CERTS_PATH ''/home/u'')
        \<noteq> \<lparr>anchor = ''/'', parts = [''home'', ''u'', ''build'']\<rparr>"
    by (simp add: resolve_def CERTS_PATH_def joinpath_def Path_def splitroot_def)
  from 1 2 4 safe_names_disjoint_outputs [OF 1(1) 1(2) 3(1) 4]
       safe_names_disjoint_outputs [OF 1(2) 2 3(2) 4]
  show ?thesis by blast
qed

text \<open>
  C7 as stated fails: a platform entry named \<open>com.android.adbd.certificate.override\<close>
  and the apex entry \<open>com.android.adbd\<close> both derive the path
  \<open>com.android.adbd.certificate.override.x509.pem\<close>, and so do the two apex entries
  \<open>com.android.adbd.certificate.override.x509\<close> (as its private key) and
  \<open>com.android.adbd\<close> (as its certificate). And for a run whose working directory
  is the root directory of the keys, the private keys of the platform entry
  \<open>releasekey\<close> and of the apex entry \<open>releasekey\<close> are one file.
\<close>

theorem shared_output_counterexample:
  "PlatformTask ''com.android.adbd.certificate.override'' \<noteq> ApexTask ''com.android.adbd''
   \<and> Path ''com.android.adbd.certificate.override.x509.pem''
       \<in> set (task_paths (CERTS_PATH ''/home/u'') (PlatformTask ''com.android.adbd.certificate.override''))
         \<inter> set (task_paths (CERTS_PATH ''/home/u'') (ApexTask ''com.android.adbd''))
   \<and> ApexTask ''com.android.adbd.certificate.override.x509'' \<noteq> ApexTask ''com.android.adbd''
   \<and> Path ''com.android.adbd.certificate.override.x509.pem''
       \<in> set (task_paths (CERTS_PATH ''/home/u'') (ApexTask ''com.android.adbd.certificate.override.x509''))
         \<inter> set (task_paths (CERTS_PATH ''/home/u'') (ApexTask ''com.android.adbd''))
   \<and> PlatformTask ''releasekey'' \<noteq> ApexTask ''releasekey''
   \<and> safe_name ''releasekey''
   \<and> \<lparr>anchor = ''/'', parts = [''home'', ''u'', ''.android-certs'', ''releasekey.pem'']\<rparr>
       \<in> set (map (resolve (CERTS_PATH ''/home/u''))
                (task_paths (CERTS_PATH ''/home/u'') (PlatformTask ''releasekey'')))
         \<inter> set (map (resolve (CERTS_PATH ''/home/u''))
                (task_paths (CERTS_PATH ''/home/u'') (ApexTask ''releasekey'')))"
proof -
  have 1: "PlatformTask ''com.android.adbd.certificate.override'' \<noteq> ApexTask ''com.android.adbd''
   \<and> Path ''com.android.adbd.certificate.override.x509.pem''
       \<in> set (task_paths (CERTS_PATH ''/home/u'') (PlatformTask ''com.android.adbd.certificate.override''))
         \<inter> set (task_paths (CERTS_PATH ''/home/u'') (ApexTask ''com.android.adbd''))
   \<and> ApexTask ''com.android.adbd.certificate.override.x509'' \<noteq> ApexTask ''com.android.adbd''
   \<and> Path ''com.android.adbd.certificate.override.x509.pem''
       \<in> set (task_paths (CERTS_PATH ''/home/u'') (ApexTask ''com.android.adbd.certificate.override.x509''))
         \<inter> set (task_paths (CERTS_PATH ''/home/u'') (ApexTask ''com.android.adbd''))"
    by (simp add: task_paths_def platform_paths_def apex_paths_def)
  have 2: "safe_name ''releasekey''"
    by (simp add: safe_name_def plain_def suffix_to_prefix)
  have 3: "resolve (CERTS_PATH ''/home/u'') (joinpath (CERTS_PATH ''/home/u'') (''releasekey'' @ ''.pem''))
             = \<lparr>anchor = ''/'', parts = [''home'', ''u'', ''.android-certs'', ''releasekey.pem'']\<rparr>"
          "resolve (CERTS_PATH ''/home/u'') (Path (''releasekey'' @ ''.pem''))
             = \<lparr>anchor = ''/'', parts = [''home'', ''u'', ''.android-certs'', ''releasekey.pem'']\<rparr>"
    by (simp_all add: resolve_def CERTS_PATH_def joinpath_def Path_def splitroot_def)
  have 4: "\<lparr>anchor = ''/'', parts = [''home'', ''u'', ''.android-certs'', ''releasekey.pem'']\<rparr>
       \<in> set (map (resolve (CERTS_PATH ''/home/u''))
                (task_paths (CERTS_PATH ''/home/u'') (PlatformTask ''releasekey'')))
         \<inter> set (map (resolve (CERTS_PATH ''/home/u''))
                (task_paths (CERTS_PATH ''/home/u'') (ApexTask ''releasekey'')))"
    unfolding task_paths_def platform_paths_def apex_paths_def
    by (simp only: task.case list.map 3 list.set Int_iff insert_iff simp_thms)
  from 1 2 4 show ?thesis by simp
qed


section \<open>The order of the results\<close>

lemma mset_arrange: "mset (arrange cs xs) = mset xs"
proof (induction xs arbitrary: cs)
  case Nil
  show ?case by simp
next
  case (Cons x xs)
  define c where "c = (case cs of [] \<Rightarrow> 0 | c # _ \<Rightarrow> c)"
  have "mset (take c (arrange (tl cs) xs)) + mset (drop c (arrange (tl cs) xs)) =
          mset (arrange (tl cs) xs)"
    by (metis append_take_drop_id mset_append)
  with Cons [of "tl cs"] show ?case
    by (simp add: Let_def c_def [symmetric])
qed

lemma platform_returns:
  "generate_single_platform_key certs cert w = (Inr r, w') \<Longrightarrow>
     r = (str_path (joinpath certs (cert @ ''.pem'')), str_path (Path (cert @ ''.x509.pem'')),
          str_path (Path (cert @ ''.pk8'')))"
proof (cases "exists w (joinpath certs (cert @ ''.pem'')) \<and> exists w (Path (cert @ ''.x509.pem''))
                 \<and> exists w (Path (cert @ ''.pk8''))")
  case True
  assume "generate_single_platform_key certs cert w = (Inr r, w')"
  with True show ?thesis using platform_skip [of w certs cert] by simp
next
  case False
  assume "generate_single_platform_key certs cert w = (Inr r, w')"
  then show ?thesis
    unfolding platform_generate [OF False refl refl refl refl refl refl]
    by (simp split: if_splits)
qed

lemma apex_returns:
  "generate_single_apex_key apex w = (Inr r, w') \<Longrightarrow>
     r = (str_path (Path (apex @ ''.pem'')),
          str_path (Path (apex @ ''.certificate.override.x509.pem'')),
          str_path (Path (apex @ ''.certificate.override.pk8'')),
          str_path (Path (apex @ ''.avbpubkey'')), str_path (Path (apex @ ''.pubkey'')))"
proof (cases "exists w (Path (apex @ ''.pem'')) \<and> exists w (Path (apex @ ''.certificate.override.x509.pem''))
       \<and> exists w (Path (apex @ ''.certificate.override.pk8''))
       \<and> (exists w (Path (apex @ ''.pubkey'')) \<or> exists w (Path (apex @ ''.avbpubkey'')))")
  case True
  assume "generate_single_apex_key apex w = (Inr r, w')"
  with True show ?thesis using apex_skip [of w apex] by auto
next
  case False
  define pub where "pub = (if apex = ''com.android.vndk'' then Path (apex @ ''.pubkey'')
                       else Path (apex @ ''.avbpubkey''))"
  assume "generate_single_apex_key apex w = (Inr r, w')"
  then show ?thesis
    unfolding apex_generate [OF False refl refl refl pub_def refl refl refl]
    by (simp split: if_splits)
qed

lemma run_task_returns:
  assumes "run_task certs t w = (Inr x, w')"
  shows "x = task_result certs t"
proof (cases t)
  case (PlatformTask cert)
  with assms obtain r where r: "generate_single_platform_key certs cert w = (Inr r, w')"
      and x: "x = (case r of (a, b, c) \<Rightarrow> PlatformResult a b c)"
    by (auto simp: run_task_def io_bind_def io_return_def split: prod.splits sum.splits)
  from platform_returns [OF r] x PlatformTask show ?thesis
    by (simp add: task_result_def platform_paths_def)
next
  case (ApexTask apex)
  with assms obtain r where r: "generate_single_apex_key apex w = (Inr r, w')"
      and x: "x = (case r of (a, b, c, d, e) \<Rightarrow> ApexResult a b c d e)"
    by (auto simp: run_task_def io_bind_def io_return_def split: prod.splits sum.splits)
  from apex_returns [OF r] x ApexTask show ?thesis
    by (simp add: task_result_def apex_paths_def)
qed

lemma run_all_outcomes:
  "run_all certs its w = (completed, w') \<Longrightarrow>
     map fst completed = map fst its
     \<and> (\<forall>(i, r) \<in> set completed. \<exists>t. (i, t) \<in> set its
            \<and> (\<forall>x. r = Inr x \<longrightarrow> x = task_result certs t))"
proof (induction its arbitrary: w completed w')
  case Nil
  then show ?case by simp
next
  case (Cons it its)
  obtain i t where it: "it = (i, t)" by (cases it)
  obtain r w1 where r: "run_task certs t w = (r, w1)" by (cases "run_task certs t w")
  obtain rs w2 where rs: "run_all certs its w1 = (rs, w2)" by (cases "run_all certs its w1")
  from Cons.prems it r rs have c: "completed = (i, r) # rs" by simp
  from Cons.IH [OF rs] have ih: "map fst rs = map fst its"
    "\<forall>(i, r) \<in> set rs. \<exists>t. (i, t) \<in> set its \<and> (\<forall>x. r = Inr x \<longrightarrow> x = task_result certs t)"
    by simp_all
  have h: "\<forall>x. r = Inr x \<longrightarrow> x = task_result certs t"
    using r run_task_returns by blast
  from c it ih h show ?case by (auto 4 3)
qed


lemma futures_in_submission_order:
  assumes run: "run_all certs (arrange sched (enumerate 0 ts)) w = (completed, w')"
  shows "map fst (sort_key fst completed) = [0..<length ts]"
    and "\<forall>k<length ts. (k, map snd (sort_key fst completed) ! k) \<in> set completed"
    and "\<forall>k<length ts. \<forall>x. map snd (sort_key fst completed) ! k = Inr x \<longrightarrow>
            x = task_result certs (ts ! k)"
proof -
  let ?s = "sort_key fst completed"
  note o = run_all_outcomes [OF run]
  have e: "map fst (enumerate 0 ts) = [0..<length ts]" by simp
  have "mset (map fst ?s) = mset (map fst completed)" by simp
  also have "\<dots> = mset (map fst (arrange sched (enumerate 0 ts)))" using o by simp
  also have "\<dots> = mset (map fst (enumerate 0 ts))" by (simp only: mset_map mset_arrange)
  also have "\<dots> = mset [0..<length ts]" by (simp only: e)
  finally have m: "mset (map fst ?s) = mset [0..<length ts]" .
  have "sorted (map fst ?s)" by (rule sorted_sort_key)
  with m have "sort [0..<length ts] = map fst ?s" by (rule properties_for_sort)
  then show idx: "map fst ?s = [0..<length ts]" by simp
  then have len: "length ?s = length ts" by (metis length_map length_upt minus_nat.diff_0)
  have nth: "fst (?s ! k) = k" if "k < length ts" for k
  proof -
    from that len have "fst (?s ! k) = map fst ?s ! k" by simp
    also have "\<dots> = k" using that by (simp add: idx)
    finally show ?thesis .
  qed
  show mem: "\<forall>k<length ts. (k, map snd ?s ! k) \<in> set completed"
  proof (intro allI impI)
    fix k assume k: "k < length ts"
    with len have "k < length ?s" by simp
    then have "?s ! k \<in> set ?s" by (rule nth_mem)
    then have "?s ! k \<in> set completed" by simp
    moreover have "?s ! k = (k, map snd ?s ! k)"
      using nth [OF k] k len by (simp add: prod_eq_iff)
    ultimately show "(k, map snd ?s ! k) \<in> set completed" by simp
  qed
  show "\<forall>k<length ts. \<forall>x. map snd ?s ! k = Inr x \<longrightarrow> x = task_result certs (ts ! k)"
  proof (intro allI impI)
    fix k x assume k: "k < length ts" and x: "map snd ?s ! k = Inr x"
    from mem k have "(k, map snd ?s ! k) \<in> set completed" by blast
    with o obtain t where t: "(k, t) \<in> set (arrange sched (enumerate 0 ts))"
        and r: "\<forall>x. map snd ?s ! k = Inr x \<longrightarrow> x = task_result certs t"
      by blast
    from t have "(k, t) \<in> set (enumerate 0 ts)"
      by (metis mset_arrange set_mset_mset)
    then have "t = ts ! k" by (simp add: in_set_enumerate_eq)
    with r x show "x = task_result certs (ts ! k)" by simp
  qed
qed

lemma collect_Inr: "collect fs = Inr rs \<Longrightarrow> fs = map Inr rs"
  by (induction fs arbitrary: rs) (auto split: sum.splits)

lemma collect_map_Inr: "collect (map Inr rs) = Inr rs"
  by (induction rs) auto

lemma collect_results:
  assumes len: "length fs = length ts"
      and nth: "\<forall>k<length ts. \<forall>x. fs ! k = Inr x \<longrightarrow> x = f (ts ! k)"
      and c: "collect fs = Inr rs"
  shows "rs = map f ts"
proof (rule nth_equalityI)
  from collect_Inr [OF c] have fs: "fs = map Inr rs" .
  with len show l: "length rs = length (map f ts)" by simp
  fix k assume "k < length rs"
  with l have k: "k < length ts" by simp
  with fs l have "fs ! k = Inr (rs ! k)" by simp
  with nth k show "rs ! k = map f ts ! k" by simp
qed


lemma run_task_ok:
  assumes "denied w = {}" and cn: "\<forall>apex. t = ApexTask apex \<longrightarrow> accepted_cn apex"
  shows "\<exists>w'. run_task certs t w = (Inr (task_result certs t), w') \<and> denied w' = {}"
proof (cases t)
  case (PlatformTask cert)
  show ?thesis
  proof (cases "exists w (joinpath certs (cert @ ''.pem'')) \<and> exists w (Path (cert @ ''.x509.pem''))
                 \<and> exists w (Path (cert @ ''.pk8''))")
    case True
    with assms(1) PlatformTask show ?thesis using platform_skip [of w certs cert]
      by (simp add: run_task_def io_bind_def io_return_def task_result_def platform_paths_def)
  next
    case False
    show ?thesis using assms(1) PlatformTask
      by (simp add: run_task_def io_bind_def io_return_def task_result_def platform_paths_def
            platform_generate [OF False refl refl refl refl refl refl])
  qed
next
  case (ApexTask apex)
  show ?thesis
  proof (cases "exists w (Path (apex @ ''.pem'')) \<and> exists w (Path (apex @ ''.certificate.override.x509.pem''))
       \<and> exists w (Path (apex @ ''.certificate.override.pk8''))
       \<and> (exists w (Path (apex @ ''.pubkey'')) \<or> exists w (Path (apex @ ''.avbpubkey'')))")
    case True
    then have "generate_single_apex_key apex w =
           (Inr (str_path (Path (apex @ ''.pem'')),
                 str_path (Path (apex @ ''.certificate.override.x509.pem'')),
                 str_path (Path (apex @ ''.certificate.override.pk8'')),
                 str_path (Path (apex @ ''.avbpubkey'')),
                 str_path (Path (apex @ ''.pubkey''))), w)"
      using apex_skip [of w apex] by blast
    with assms(1) ApexTask show ?thesis
      by (simp add: run_task_def io_bind_def io_return_def task_result_def apex_paths_def)
  next
    case False
    define pub where "pub = (if apex = ''com.android.vndk'' then Path (apex @ ''.pubkey'')
                       else Path (apex @ ''.avbpubkey''))"
    from cn ApexTask have "accepted_cn apex" by simp
    then show ?thesis using assms(1) ApexTask
      by (simp add: run_task_def io_bind_def io_return_def task_result_def apex_paths_def
            apex_generate [OF False refl refl refl pub_def refl refl refl])
  qed
qed

lemma run_all_ok:
  "denied w = {} \<Longrightarrow> \<forall>(i, t) \<in> set its. \<forall>apex. t = ApexTask apex \<longrightarrow> accepted_cn apex \<Longrightarrow>
     \<exists>completed w'. run_all certs its w = (completed, w')
        \<and> (\<forall>(i, r) \<in> set completed. \<exists>x. r = Inr x)"
proof (induction its arbitrary: w)
  case Nil
  show ?case by simp
next
  case (Cons it its)
  obtain i t where it: "it = (i, t)" by (cases it)
  from Cons.prems(2) it have cn: "\<forall>apex. t = ApexTask apex \<longrightarrow> accepted_cn apex" by simp
  from Cons.prems(2)
  have cns: "\<forall>(i, t) \<in> set its. \<forall>apex. t = ApexTask apex \<longrightarrow> accepted_cn apex" by simp
  from run_task_ok [OF Cons.prems(1) cn, of certs]
  obtain w1 where r: "run_task certs t w = (Inr (task_result certs t), w1)"
      and d: "denied w1 = {}" by blast
  from Cons.IH [OF d cns] obtain rs w2 where rs: "run_all certs its w1 = (rs, w2)"
      and ok: "\<forall>(i, r) \<in> set rs. \<exists>x. r = Inr x" by blast
  from it r rs ok show ?case by auto
qed

lemma set_arrange: "set (arrange cs xs) = set xs"
  using mset_arrange [of cs xs] by (metis set_mset_mset)


lemma all_Inr_map: "\<forall>f \<in> set fs. \<exists>x. f = Inr x \<Longrightarrow> \<exists>rs. fs = map Inr rs"
proof (induction fs)
  case Nil
  show ?case by simp
next
  case (Cons a fs)
  then obtain x rs where "a = Inr x" "fs = map Inr rs" by auto
  then have "a # fs = map Inr (x # rs)" by simp
  then show ?case by (rule exI)
qed

lemma generate_keys_unfold:
  "generate_keys keys home sched w =
     (if files w (CERTS_PATH home) \<noteq> None then (Inl OSError, w)
      else
        (case run_all (CERTS_PATH home)
                (arrange sched
                   (enumerate 0 (map PlatformTask (platform_keys keys) @ map ApexTask (apex_keys keys))))
                w of
           (completed, w1) \<Rightarrow>
             (case collect (take (length (platform_keys keys)) (map snd (sort_key fst completed))) of
                Inl e \<Rightarrow> (Inl e, w1)
              | Inr pr \<Rightarrow>
                  (case collect (drop (length (platform_keys keys)) (map snd (sort_key fst completed))) of
                     Inl e \<Rightarrow> (Inl e, w1)
                   | Inr ar \<Rightarrow> (Inr (pr, ar), w1)))))"
  by (simp add: generate_keys_def io_bind_def mkdir_def Let_def)

lemma generate_keys_results:
  assumes g: "generate_keys keys home sched w = (Inr (pr, ar), w')"
  shows "pr = map (\<lambda>cert. task_result (CERTS_PATH home) (PlatformTask cert)) (platform_keys keys)"
    and "ar = map (\<lambda>apex. task_result (CERTS_PATH home) (ApexTask apex)) (apex_keys keys)"
proof -
  let ?C = "CERTS_PATH home"
  let ?np = "length (platform_keys keys)"
  let ?ts = "map PlatformTask (platform_keys keys) @ map ApexTask (apex_keys keys)"
  obtain completed w1 where run: "run_all ?C (arrange sched (enumerate 0 ?ts)) w = (completed, w1)"
    by (cases "run_all ?C (arrange sched (enumerate 0 ?ts)) w")
  let ?fs = "map snd (sort_key fst completed)"
  from g run have cp: "collect (take ?np ?fs) = Inr pr" and ca: "collect (drop ?np ?fs) = Inr ar"
    by (auto simp: generate_keys_unfold split: if_splits sum.splits)
  note f = futures_in_submission_order [OF run]
  from f(1) have len: "length ?fs = length ?ts"
    by (metis length_map length_upt minus_nat.diff_0)
  have "pr = map (task_result ?C) (map PlatformTask (platform_keys keys))"
  proof (rule collect_results [OF _ _ cp])
    show "length (take ?np ?fs) = length (map PlatformTask (platform_keys keys))"
      using len by simp
    show "\<forall>k<length (map PlatformTask (platform_keys keys)). \<forall>x.
            take ?np ?fs ! k = Inr x \<longrightarrow>
            x = task_result ?C (map PlatformTask (platform_keys keys) ! k)"
    proof (intro allI impI)
      fix k x assume k: "k < length (map PlatformTask (platform_keys keys))"
         and x: "take ?np ?fs ! k = Inr x"
      from k have k': "k < length ?ts" "k < ?np" by simp_all
      from x k'(2) have "?fs ! k = Inr x" by simp
      with f(3) k'(1) have "x = task_result ?C (?ts ! k)" by blast
      with k'(2) show "x = task_result ?C (map PlatformTask (platform_keys keys) ! k)"
        by (simp add: nth_append)
    qed
  qed
  then show "pr = map (\<lambda>cert. task_result ?C (PlatformTask cert)) (platform_keys keys)"
    by (simp add: comp_def)
  have "ar = map (task_result ?C) (map ApexTask (apex_keys keys))"
  proof (rule collect_results [OF _ _ ca])
    show "length (drop ?np ?fs) = length (map ApexTask (apex_keys keys))"
      using len by simp
    show "\<forall>k<length (map ApexTask (apex_keys keys)). \<forall>x.
            drop ?np ?fs ! k = Inr x \<longrightarrow>
            x = task_result ?C (map ApexTask (apex_keys keys) ! k)"
    proof (intro allI impI)
      fix k x assume k: "k < length (map ApexTask (apex_keys keys))"
         and x: "drop ?np ?fs ! k = Inr x"
      from k have k': "?np + k < length ?ts" by simp
      with len have "?np + k \<le> length ?fs" by simp
      with x have "?fs ! (?np + k) = Inr x" by simp
      with f(3) k' have "x = task_result ?C (?ts ! (?np + k))" by blast
      then show "x = task_result ?C (map ApexTask (apex_keys keys) ! k)"
        by (simp add: nth_append)
    qed
  qed
  then show "ar = map (\<lambda>apex. task_result ?C (ApexTask apex)) (apex_keys keys)"
    by (simp add: comp_def)
qed

lemma generate_keys_ok:
  assumes d: "denied w = {}" and m: "files w (CERTS_PATH home) = None"
      and cn: "\<forall>apex \<in> set (apex_keys keys). accepted_cn apex"
  shows "\<exists>pr ar w'. generate_keys keys home sched w = (Inr (pr, ar), w')"
proof -
  let ?C = "CERTS_PATH home"
  let ?np = "length (platform_keys keys)"
  let ?ts = "map PlatformTask (platform_keys keys) @ map ApexTask (apex_keys keys)"
  have "\<forall>(i, t) \<in> set (arrange sched (enumerate 0 ?ts)).
          \<forall>apex. t = ApexTask apex \<longrightarrow> accepted_cn apex"
  proof (clarify)
    fix i apex assume "(i, ApexTask apex) \<in> set (arrange sched (enumerate 0 ?ts))"
    then have "(i, ApexTask apex) \<in> set (enumerate 0 ?ts)" by (simp only: set_arrange)
    then have "i < length ?ts \<and> ?ts ! i = ApexTask apex" by (simp add: in_set_enumerate_eq)
    then have "ApexTask apex \<in> set ?ts" by (metis nth_mem)
    then have "apex \<in> set (apex_keys keys)" by auto
    with cn show "accepted_cn apex" by blast
  qed
  from run_all_ok [OF d this, of ?C]
  obtain completed w1 where run: "run_all ?C (arrange sched (enumerate 0 ?ts)) w = (completed, w1)"
      and ok: "\<forall>(i, r) \<in> set completed. \<exists>x. r = Inr x" by blast
  let ?fs = "map snd (sort_key fst completed)"
  have "\<forall>f \<in> set ?fs. \<exists>x. f = Inr x"
  proof
    fix f assume "f \<in> set ?fs"
    then obtain i where "(i, f) \<in> set (sort_key fst completed)" by auto
    then have "(i, f) \<in> set completed" by simp
    with ok show "\<exists>x. f = Inr x" by blast
  qed
  then have "\<exists>rs. ?fs = map Inr rs" by (rule all_Inr_map)
  then obtain rs where rs: "?fs = map Inr rs" by blast
  have "collect (take ?np ?fs) = Inr (take ?np rs)" "collect (drop ?np ?fs) = Inr (drop ?np rs)"
    unfolding rs by (simp_all add: take_map drop_map collect_map_Inr)
  with run m show ?thesis by (simp add: generate_keys_unfold)
qed

text \<open>
  C9. Whatever the order in which the pool completes the tasks, a call of
  \<open>generate_keys\<close> that returns gives the two result lists in the submission order
  of the catalog: the element at each position is the result of the entry at that
  position. With nothing refused by the operating system, no file in the place of the
  root directory and every apex name accepted as a \<open>CN\<close>, the call does return.
\<close>

theorem generate_keys_submission_order:
  "(\<forall>pr ar w'. generate_keys keys home sched w = (Inr (pr, ar), w') \<longrightarrow>
       pr = map (\<lambda>cert. task_result (CERTS_PATH home) (PlatformTask cert)) (platform_keys keys)
     \<and> ar = map (\<lambda>apex. task_result (CERTS_PATH home) (ApexTask apex)) (apex_keys keys))
   \<and> (denied w = {} \<and> files w (CERTS_PATH home) = None
        \<and> (\<forall>apex \<in> set (apex_keys keys). accepted_cn apex) \<longrightarrow>
        (\<exists>w'. generate_keys keys home sched w =
           (Inr (map (\<lambda>cert. task_result (CERTS_PATH home) (PlatformTask cert)) (platform_keys keys),
                 map (\<lambda>apex. task_result (CERTS_PATH home) (ApexTask apex)) (apex_keys keys)),
            w')))"
proof (intro conjI allI impI)
  fix pr ar w'
  assume g: "generate_keys keys home sched w = (Inr (pr, ar), w')"
  from generate_keys_results [OF g]
  show "pr = map (\<lambda>cert. task_result (CERTS_PATH home) (PlatformTask cert)) (platform_keys keys)"
    and "ar = map (\<lambda>apex. task_result (CERTS_PATH home) (ApexTask apex)) (apex_keys keys)"
    by simp_all
next
  assume a: "denied w = {} \<and> files w (CERTS_PATH home) = None
        \<and> (\<forall>apex \<in> set (apex_keys keys). accepted_cn apex)"
  then obtain pr ar w' where g: "generate_keys keys home sched w = (Inr (pr, ar), w')"
    using generate_keys_ok [of w home keys sched] by blast
  from generate_keys_results [OF g] g
  show "\<exists>w'. generate_keys keys home sched w =
           (Inr (map (\<lambda>cert. task_result (CERTS_PATH home) (PlatformTask cert)) (platform_keys keys),
                 map (\<lambda>apex. task_result (CERTS_PATH home) (ApexTask apex)) (apex_keys keys)),
            w')"
    by blast
qed

lemma paths1:
  "CERTS_PATH ''/home/u'' = \<lparr>anchor = ''/'', parts = [''home'', ''u'', ''.android-certs'']\<rparr>"
  "joinpath \<lparr>anchor = ''/'', parts = [''home'', ''u'', ''.android-certs'']\<rparr> ''releasekey.pem'' =
     \<lparr>anchor = ''/'', parts = [''home'', ''u'', ''.android-certs'', ''releasekey.pem'']\<rparr>"
  "Path ''releasekey.x509.pem'' = \<lparr>anchor = [], parts = [''releasekey.x509.pem'']\<rparr>"
  "Path ''releasekey.pk8'' = \<lparr>anchor = [], parts = [''releasekey.pk8'']\<rparr>"
  "Path ''com.android.adbd.pem'' = \<lparr>anchor = [], parts = [''com.android.adbd.pem'']\<rparr>"
  "Path ''com.android.adbd.certificate.override.x509.pem'' =
     \<lparr>anchor = [], parts = [''com.android.adbd.certificate.override.x509.pem'']\<rparr>"
  "Path ''com.android.adbd.certificate.override.pk8'' =
     \<lparr>anchor = [], parts = [''com.android.adbd.certificate.override.pk8'']\<rparr>"
  "Path ''com.android.adbd.avbpubkey'' = \<lparr>anchor = [], parts = [''com.android.adbd.avbpubkey'']\<rparr>"
  "Path ''com.android.adbd.pubkey'' = \<lparr>anchor = [], parts = [''com.android.adbd.pubkey'']\<rparr>"
  "Path ''Android.bp'' = \<lparr>anchor = [], parts = [''Android.bp'']\<rparr>"
  "Path ''keys.mk'' = \<lparr>anchor = [], parts = [''keys.mk'']\<rparr>"
  by (simp_all add: CERTS_PATH_def joinpath_def Path_def splitroot_def)

theorem generate_keys_submission_order_witness:
  "denied world0 = {} \<and> files world0 (CERTS_PATH ''/home/u'') = None
   \<and> apex_keys catalog1 = [''com.android.adbd''] \<and> accepted_cn ''com.android.adbd''
   \<and> (\<exists>w'. generate_keys catalog1 ''/home/u'' [1] world0 =
        (Inr ([PlatformResult ''/home/u/.android-certs/releasekey.pem'' ''releasekey.x509.pem''
                 ''releasekey.pk8''],
              [ApexResult ''com.android.adbd.pem'' ''com.android.adbd.certificate.override.x509.pem''
                 ''com.android.adbd.certificate.override.pk8'' ''com.android.adbd.avbpubkey''
                 ''com.android.adbd.pubkey'']), w'))
   \<and> (\<exists>w'. generate_keys catalog1 ''/home/u'' [0] world0 =
        (Inr ([PlatformResult ''/home/u/.android-certs/releasekey.pem'' ''releasekey.x509.pem''
                 ''releasekey.pk8''],
              [ApexResult ''com.android.adbd.pem'' ''com.android.adbd.certificate.override.x509.pem''
                 ''com.android.adbd.certificate.override.pk8'' ''com.android.adbd.avbpubkey''
                 ''com.android.adbd.pubkey'']), w'))"
proof -
  have h: "denied world0 = {}" "files world0 (CERTS_PATH ''/home/u'') = None"
          "apex_keys catalog1 = [''com.android.adbd'']" "accepted_cn ''com.android.adbd''"
    by (simp_all add: world0_def catalog1_def accepted_cn_def)
  from h(3,4) have cn: "\<forall>apex \<in> set (apex_keys catalog1). accepted_cn apex" by simp
  have r: "map (\<lambda>cert. task_result (CERTS_PATH ''/home/u'') (PlatformTask cert))
             (platform_keys catalog1) =
           [PlatformResult ''/home/u/.android-certs/releasekey.pem'' ''releasekey.x509.pem''
                 ''releasekey.pk8'']"
          "map (\<lambda>apex. task_result (CERTS_PATH ''/home/u'') (ApexTask apex)) (apex_keys catalog1) =
           [ApexResult ''com.android.adbd.pem'' ''com.android.adbd.certificate.override.x509.pem''
                 ''com.android.adbd.certificate.override.pk8'' ''com.android.adbd.avbpubkey''
                 ''com.android.adbd.pubkey'']"
    by (simp_all add: catalog1_def task_result_def platform_paths_def apex_paths_def paths1
          str_path_def)
  from generate_keys_submission_order [of catalog1 "''/home/u''" "[1]" world0]
       generate_keys_submission_order [of catalog1 "''/home/u''" "[0]" world0] h cn
  show ?thesis unfolding r by blast
qed

section \<open>A failing task\<close>














end
